theory Spec2Isabelle
  imports Main
begin

section \<open>The collector's start-up sequence (cmd/collector/main.go)\<close>

text \<open>
  The program is one sequential start-up routine (the \<open>Run\<close> closure of the cobra command)
  that launches two goroutines. The embedding keeps one program counter per task, a trace
  of the effects performed (each tagged with the task that performed it), the state held by
  the health check handle, and the exit code once the process has ended. Calls into
  libraries that can fail take their result from an environment, so that every
  \<open>if err != nil\<close> of the source is a branch of the model. A schedule (a list of ticks)
  decides which task runs next and when a signal is delivered.

  The model starts where the closure starts to act, at line 75 (healthcheck.Serve): the
  lines before it build the logger, the options and the metrics factory and have no
  branch. Command-line parsing by cobra (an error of \<open>command.Execute\<close>, the version
  subcommand) lies before the closure and is not part of the model.
\<close>

subsection \<open>Values\<close>

type_synonym error = string

text \<open>net/http status codes used by the source.\<close>

definition StatusServiceUnavailable :: int where
  "StatusServiceUnavailable = 503"

definition StatusInternalServerError :: int where
  "StatusInternalServerError = 500"

text \<open>
  Modelled from the spec: package pkg/healthcheck is not among the sources. Section 4.2
  gives \<open>Serve(initial code, port)\<close> returning a handle or an error, \<open>Set(code)\<close> storing a
  code, and \<open>Ready()\<close> as the transition to the ready code; sections 6 and 8 give that
  code as 200.
\<close>

definition StatusReady :: int where
  "StatusReady = 200"

text \<open>builder.CollectorOptions: the four ports read by the start-up routine.\<close>

record CollectorOptions =
  CollectorPort :: int
  CollectorHTTPPort :: int
  CollectorZipkinHTTPPort :: int
  CollectorHealthCheckHTTPPort :: int

text \<open>strconv.Itoa: decimal digits, with a minus sign for a negative number.\<close>

definition digit :: "nat \<Rightarrow> char" where
  "digit d = char_of (48 + d)"

fun digits :: "nat \<Rightarrow> string" where
  "digits n = (if n < 10 then [digit n] else digits (n div 10) @ [digit (n mod 10)])"

declare digits.simps [simp del]

definition Itoa :: "int \<Rightarrow> string" where
  "Itoa i = (if i < 0 then CHR ''-'' # digits (nat (- i)) else digits (nat i))"

text \<open>The address strings built at lines 101, 111 and 159: \<open>":" + strconv.Itoa(port)\<close>.\<close>

definition portStr :: "int \<Rightarrow> string" where
  "portStr p = CHR '':'' # Itoa p"

subsection \<open>Tasks, effects and handlers\<close>

datatype task = Main | ZipkinHTTP | PrimaryHTTP

text \<open>The two route tables: app.NewAPIHandler and zipkin.NewAPIHandler register them.\<close>

datatype routes = APIRoutes | ZipkinRoutes

text \<open>
  What is handed to http.ListenAndServe: a mux router carrying a route table, possibly
  wrapped by the function that recoveryhandler.NewRecoveryHandler(logger, printStack)
  returned.
\<close>

datatype HandlerExpr = MuxRouter routes | RecoveryHandler bool HandlerExpr

datatype service = TChanCollectorServer | TChanZipkinCollectorServer

datatype event =
    EvHealthServe int int "error option"
  | EvNewSpanHandlerBuilder "error option"
  | EvNewChannel string "error option"
  | EvNewServer
  | EvBuildHandlers
  | EvRegister service
  | EvNetListen string string "error option"
  | EvChServe
  | EvNewRouter routes
  | EvRegisterRoutes routes
  | EvNewRecoveryHandler bool
  | EvGo task
  | EvLogInfo string
  | EvLogFatal string
  | EvExit int
  | EvListenAndServe string HandlerExpr
  | EvListenAndServeReturn "error option"
  | EvHcReady
  | EvHcSet int
  | EvSignal

subsection \<open>The environment\<close>

text \<open>
  The results of the fallible library calls. \<open>http_ListenAndServe\<close> gives the value the
  call returns with once it returns; whether and when it returns is decided by the
  schedule.
\<close>

record Env =
  healthcheck_Serve :: "int \<Rightarrow> int \<Rightarrow> error option"
  builder_NewSpanHandlerBuilder :: "error option"
  tchannel_NewChannel :: "string \<Rightarrow> error option"
  net_Listen :: "string \<Rightarrow> string \<Rightarrow> error option"
  http_ListenAndServe :: "string \<Rightarrow> error option"

subsection \<open>Program counters\<close>

text \<open>The four places where the start-up routine calls logger.Fatal (lines 77, 89, 94, 104).\<close>

datatype fail_site = AtHealth | AtBuilder | AtChannel | AtListen

fun fatal_msg :: "fail_site \<Rightarrow> string" where
  "fatal_msg AtHealth = ''Could not start the health check server.''"
| "fatal_msg AtBuilder = ''Unable to set up builder''"
| "fatal_msg AtChannel = ''Unable to create new TChannel''"
| "fatal_msg AtListen = ''Unable to start listening on channel''"

datatype main_pc =
    M_HealthServe
  | M_Builder
  | M_Channel
  | M_Server
  | M_Listen
  | M_ChServe
  | M_Router
  | M_GoZipkin
  | M_LogInfo
  | M_GoPrimary
  | M_Ready
  | M_Select
  | M_Finishing
  | M_Done
  | M_Fatal fail_site
  | M_Exited fail_site

datatype zipkin_pc =
    Z_NotStarted
  | Z_Start
  | Z_ListenAndServe
  | Z_Serving
  | Z_Fatal
  | Z_Exited
  | Z_Done

datatype primary_pc =
    P_NotStarted
  | P_ListenAndServe
  | P_Serving
  | P_Fatal
  | P_Set
  | P_Exited
  | P_Done

record State =
  mainpc :: main_pc
  zpc :: zipkin_pc
  ppc :: primary_pc
  hc :: "int option"
  exited :: "int option"
  trace :: "(task \<times> event) list"

definition init :: State where
  "init = \<lparr>mainpc = M_HealthServe, zpc = Z_NotStarted, ppc = P_NotStarted,
           hc = None, exited = None, trace = []\<rparr>"

subsection \<open>Effects\<close>

definition emit :: "task \<Rightarrow> event list \<Rightarrow> State \<Rightarrow> State" where
  "emit t evs s = s\<lparr>trace := trace s @ map (Pair t) evs\<rparr>"

text \<open>zap's logger.Fatal writes the entry and then calls os.Exit(1).\<close>

definition Fatal :: "task \<Rightarrow> string \<Rightarrow> State \<Rightarrow> State" where
  "Fatal t msg s = (emit t [EvLogFatal msg, EvExit 1] s)\<lparr>exited := Some 1\<rparr>"

text \<open>
  Modelled from the spec: the methods of the health check handle (pkg/healthcheck, not
  among the sources), after section 4.2: \<open>Set\<close> stores the code, \<open>Ready\<close> stores the ready
  code.
\<close>

definition hc_Set :: "task \<Rightarrow> int \<Rightarrow> State \<Rightarrow> State" where
  "hc_Set t c s = (emit t [EvHcSet c] s)\<lparr>hc := Some c\<rparr>"

definition hc_Ready :: "task \<Rightarrow> State \<Rightarrow> State" where
  "hc_Ready t s = (emit t [EvHcReady] s)\<lparr>hc := Some StatusReady\<rparr>"

definition serviceName :: string where
  "serviceName = ''jaeger-collector''"

subsection \<open>The start-up routine, lines 75 to 129\<close>

fun Run_at :: "main_pc \<Rightarrow> Env \<Rightarrow> CollectorOptions \<Rightarrow> State \<Rightarrow> State" where
  "Run_at M_HealthServe env opts s =
     (let p = CollectorHealthCheckHTTPPort opts in
      case healthcheck_Serve env StatusServiceUnavailable p of
        None \<Rightarrow> (emit Main [EvHealthServe StatusServiceUnavailable p None] s)
                  \<lparr>mainpc := M_Builder, hc := Some StatusServiceUnavailable\<rparr>
      | Some e \<Rightarrow> (emit Main [EvHealthServe StatusServiceUnavailable p (Some e)] s)
                  \<lparr>mainpc := M_Fatal AtHealth\<rparr>)"
| "Run_at M_Builder env opts s =
     (case builder_NewSpanHandlerBuilder env of
        None \<Rightarrow> (emit Main [EvNewSpanHandlerBuilder None] s)\<lparr>mainpc := M_Channel\<rparr>
      | Some e \<Rightarrow> (emit Main [EvNewSpanHandlerBuilder (Some e)] s)\<lparr>mainpc := M_Fatal AtBuilder\<rparr>)"
| "Run_at M_Channel env opts s =
     (case tchannel_NewChannel env serviceName of
        None \<Rightarrow> (emit Main [EvNewChannel serviceName None] s)\<lparr>mainpc := M_Server\<rparr>
      | Some e \<Rightarrow> (emit Main [EvNewChannel serviceName (Some e)] s)\<lparr>mainpc := M_Fatal AtChannel\<rparr>)"
| "Run_at M_Server env opts s =
     (emit Main [EvNewServer, EvBuildHandlers,
                 EvRegister TChanCollectorServer, EvRegister TChanZipkinCollectorServer] s)
       \<lparr>mainpc := M_Listen\<rparr>"
| "Run_at M_Listen env opts s =
     (let a = portStr (CollectorPort opts) in
      case net_Listen env ''tcp'' a of
        None \<Rightarrow> (emit Main [EvNetListen ''tcp'' a None] s)\<lparr>mainpc := M_ChServe\<rparr>
      | Some e \<Rightarrow> (emit Main [EvNetListen ''tcp'' a (Some e)] s)\<lparr>mainpc := M_Fatal AtListen\<rparr>)"
| "Run_at M_ChServe env opts s = (emit Main [EvChServe] s)\<lparr>mainpc := M_Router\<rparr>"
| "Run_at M_Router env opts s =
     (emit Main [EvNewRouter APIRoutes, EvRegisterRoutes APIRoutes, EvNewRecoveryHandler True] s)
       \<lparr>mainpc := M_GoZipkin\<rparr>"
| "Run_at M_GoZipkin env opts s =
     (emit Main [EvGo ZipkinHTTP] s)\<lparr>mainpc := M_LogInfo, zpc := Z_Start\<rparr>"
| "Run_at M_LogInfo env opts s =
     (emit Main [EvLogInfo ''Starting Jaeger Collector HTTP server''] s)\<lparr>mainpc := M_GoPrimary\<rparr>"
| "Run_at M_GoPrimary env opts s =
     (emit Main [EvGo PrimaryHTTP] s)\<lparr>mainpc := M_Ready, ppc := P_ListenAndServe\<rparr>"
| "Run_at M_Ready env opts s = (hc_Ready Main s)\<lparr>mainpc := M_Select\<rparr>"
| "Run_at M_Select env opts s = s"
| "Run_at M_Finishing env opts s =
     (emit Main [EvLogInfo ''Jaeger Collector is finishing'', EvExit 0] s)
       \<lparr>mainpc := M_Done, exited := Some 0\<rparr>"
| "Run_at M_Done env opts s = s"
| "Run_at (M_Fatal site) env opts s = (Fatal Main (fatal_msg site) s)\<lparr>mainpc := M_Exited site\<rparr>"
| "Run_at (M_Exited site) env opts s = s"

text \<open>
  The signal channel has capacity 0 (line 50) and signal.Notify never blocks on a send: a
  signal is received only while the routine waits in the select of line 126, and is dropped
  otherwise.
\<close>

definition signal_step :: "State \<Rightarrow> State" where
  "signal_step s =
     (if mainpc s = M_Select then (emit Main [EvSignal] s)\<lparr>mainpc := M_Finishing\<rparr> else s)"

subsection \<open>startZipkinHTTPAPI, lines 150 to 166\<close>

fun startZipkinHTTPAPI_at :: "zipkin_pc \<Rightarrow> Env \<Rightarrow> int \<Rightarrow> State \<Rightarrow> State" where
  "startZipkinHTTPAPI_at Z_NotStarted env zipkinPort s = s"
| "startZipkinHTTPAPI_at Z_Start env zipkinPort s =
     (if zipkinPort \<noteq> 0
      then (emit ZipkinHTTP [EvNewRouter ZipkinRoutes, EvRegisterRoutes ZipkinRoutes,
                             EvLogInfo ''Listening for Zipkin HTTP traffic''] s)
             \<lparr>zpc := Z_ListenAndServe\<rparr>
      else s\<lparr>zpc := Z_Done\<rparr>)"
| "startZipkinHTTPAPI_at Z_ListenAndServe env zipkinPort s =
     (emit ZipkinHTTP [EvListenAndServe (portStr zipkinPort)
                         (RecoveryHandler True (MuxRouter ZipkinRoutes))] s)
       \<lparr>zpc := Z_Serving\<rparr>"
| "startZipkinHTTPAPI_at Z_Serving env zipkinPort s =
     (case http_ListenAndServe env (portStr zipkinPort) of
        None \<Rightarrow> (emit ZipkinHTTP [EvListenAndServeReturn None] s)\<lparr>zpc := Z_Done\<rparr>
      | Some e \<Rightarrow> (emit ZipkinHTTP [EvListenAndServeReturn (Some e)] s)\<lparr>zpc := Z_Fatal\<rparr>)"
| "startZipkinHTTPAPI_at Z_Fatal env zipkinPort s =
     (Fatal ZipkinHTTP ''Could not launch service'' s)\<lparr>zpc := Z_Exited\<rparr>"
| "startZipkinHTTPAPI_at Z_Exited env zipkinPort s = s"
| "startZipkinHTTPAPI_at Z_Done env zipkinPort s = s"

subsection \<open>The goroutine of the primary HTTP front-end, lines 118 to 123\<close>

fun primaryHTTP_at :: "primary_pc \<Rightarrow> Env \<Rightarrow> string \<Rightarrow> State \<Rightarrow> State" where
  "primaryHTTP_at P_NotStarted env httpPortStr s = s"
| "primaryHTTP_at P_ListenAndServe env httpPortStr s =
     (emit PrimaryHTTP [EvListenAndServe httpPortStr
                          (RecoveryHandler True (MuxRouter APIRoutes))] s)
       \<lparr>ppc := P_Serving\<rparr>"
| "primaryHTTP_at P_Serving env httpPortStr s =
     (case http_ListenAndServe env httpPortStr of
        None \<Rightarrow> (emit PrimaryHTTP [EvListenAndServeReturn None] s)\<lparr>ppc := P_Set\<rparr>
      | Some e \<Rightarrow> (emit PrimaryHTTP [EvListenAndServeReturn (Some e)] s)\<lparr>ppc := P_Fatal\<rparr>)"
| "primaryHTTP_at P_Fatal env httpPortStr s =
     (Fatal PrimaryHTTP ''Could not launch service'' s)\<lparr>ppc := P_Exited\<rparr>"
| "primaryHTTP_at P_Set env httpPortStr s =
     (hc_Set PrimaryHTTP StatusInternalServerError s)\<lparr>ppc := P_Done\<rparr>"
| "primaryHTTP_at P_Exited env httpPortStr s = s"
| "primaryHTTP_at P_Done env httpPortStr s = s"

subsection \<open>Runs\<close>

datatype tick = TMain | TZipkin | TPrimary | TSignal

text \<open>Once the process has exited, nothing runs any more.\<close>

definition step :: "Env \<Rightarrow> CollectorOptions \<Rightarrow> State \<Rightarrow> tick \<Rightarrow> State" where
  "step env opts s t =
     (if exited s \<noteq> None then s
      else case t of
        TMain \<Rightarrow> Run_at (mainpc s) env opts s
      | TZipkin \<Rightarrow> startZipkinHTTPAPI_at (zpc s) env (CollectorZipkinHTTPPort opts) s
      | TPrimary \<Rightarrow> primaryHTTP_at (ppc s) env (portStr (CollectorHTTPPort opts)) s
      | TSignal \<Rightarrow> signal_step s)"

definition run :: "Env \<Rightarrow> CollectorOptions \<Rightarrow> tick list \<Rightarrow> State" where
  "run env opts sched = foldl (step env opts) init sched"

section \<open>Invariants of all runs\<close>

subsection \<open>The effects of one task, in program order\<close>

text \<open>The effects of task \<open>t\<close> in a trace, in the order they were performed.\<close>

definition events_of :: "task \<Rightarrow> (task \<times> event) list \<Rightarrow> event list" where
  "events_of t tr = map snd (filter (\<lambda>x. fst x = t) tr)"

text \<open>
  The effects the start-up routine has performed when it stands at a given place, built up
  step by step; a call that can fail carries its result.
\<close>

definition log_health :: "CollectorOptions \<Rightarrow> error option \<Rightarrow> event list" where
  "log_health opts r =
     [EvHealthServe StatusServiceUnavailable (CollectorHealthCheckHTTPPort opts) r]"

definition log_builder :: "CollectorOptions \<Rightarrow> error option \<Rightarrow> event list" where
  "log_builder opts r = log_health opts None @ [EvNewSpanHandlerBuilder r]"

definition log_channel :: "CollectorOptions \<Rightarrow> error option \<Rightarrow> event list" where
  "log_channel opts r = log_builder opts None @ [EvNewChannel serviceName r]"

definition log_server :: "CollectorOptions \<Rightarrow> event list" where
  "log_server opts = log_channel opts None @
     [EvNewServer, EvBuildHandlers,
      EvRegister TChanCollectorServer, EvRegister TChanZipkinCollectorServer]"

definition log_listen :: "CollectorOptions \<Rightarrow> error option \<Rightarrow> event list" where
  "log_listen opts r = log_server opts @ [EvNetListen ''tcp'' (portStr (CollectorPort opts)) r]"

definition log_router :: "CollectorOptions \<Rightarrow> event list" where
  "log_router opts = log_listen opts None @
     [EvChServe, EvNewRouter APIRoutes, EvRegisterRoutes APIRoutes, EvNewRecoveryHandler True]"

definition log_launched :: "CollectorOptions \<Rightarrow> event list" where
  "log_launched opts = log_router opts @
     [EvGo ZipkinHTTP, EvLogInfo ''Starting Jaeger Collector HTTP server'', EvGo PrimaryHTTP]"

definition log_ready :: "CollectorOptions \<Rightarrow> event list" where
  "log_ready opts = log_launched opts @ [EvHcReady]"

fun fail_log :: "Env \<Rightarrow> CollectorOptions \<Rightarrow> fail_site \<Rightarrow> event list" where
  "fail_log env opts AtHealth =
     log_health opts (healthcheck_Serve env StatusServiceUnavailable (CollectorHealthCheckHTTPPort opts))"
| "fail_log env opts AtBuilder = log_builder opts (builder_NewSpanHandlerBuilder env)"
| "fail_log env opts AtChannel = log_channel opts (tchannel_NewChannel env serviceName)"
| "fail_log env opts AtListen =
     log_listen opts (net_Listen env ''tcp'' (portStr (CollectorPort opts)))"

fun fail_result :: "Env \<Rightarrow> CollectorOptions \<Rightarrow> fail_site \<Rightarrow> error option" where
  "fail_result env opts AtHealth =
     healthcheck_Serve env StatusServiceUnavailable (CollectorHealthCheckHTTPPort opts)"
| "fail_result env opts AtBuilder = builder_NewSpanHandlerBuilder env"
| "fail_result env opts AtChannel = tchannel_NewChannel env serviceName"
| "fail_result env opts AtListen = net_Listen env ''tcp'' (portStr (CollectorPort opts))"

fun main_log :: "Env \<Rightarrow> CollectorOptions \<Rightarrow> main_pc \<Rightarrow> event list" where
  "main_log env opts M_HealthServe = []"
| "main_log env opts M_Builder = log_health opts None"
| "main_log env opts M_Channel = log_builder opts None"
| "main_log env opts M_Server = log_channel opts None"
| "main_log env opts M_Listen = log_server opts"
| "main_log env opts M_ChServe = log_listen opts None"
| "main_log env opts M_Router = log_listen opts None @ [EvChServe]"
| "main_log env opts M_GoZipkin = log_router opts"
| "main_log env opts M_LogInfo = log_router opts @ [EvGo ZipkinHTTP]"
| "main_log env opts M_GoPrimary =
     log_router opts @ [EvGo ZipkinHTTP, EvLogInfo ''Starting Jaeger Collector HTTP server'']"
| "main_log env opts M_Ready = log_launched opts"
| "main_log env opts M_Select = log_ready opts"
| "main_log env opts M_Finishing = log_ready opts @ [EvSignal]"
| "main_log env opts M_Done =
     log_ready opts @ [EvSignal, EvLogInfo ''Jaeger Collector is finishing'', EvExit 0]"
| "main_log env opts (M_Fatal site) = fail_log env opts site"
| "main_log env opts (M_Exited site) =
     fail_log env opts site @ [EvLogFatal (fatal_msg site), EvExit 1]"

text \<open>How far the routine has come: the number of steps on the path without failure.\<close>

fun site_rank :: "fail_site \<Rightarrow> nat" where
  "site_rank AtHealth = 0"
| "site_rank AtBuilder = 1"
| "site_rank AtChannel = 2"
| "site_rank AtListen = 4"

fun main_rank :: "main_pc \<Rightarrow> nat" where
  "main_rank M_HealthServe = 0"
| "main_rank M_Builder = 1"
| "main_rank M_Channel = 2"
| "main_rank M_Server = 3"
| "main_rank M_Listen = 4"
| "main_rank M_ChServe = 5"
| "main_rank M_Router = 6"
| "main_rank M_GoZipkin = 7"
| "main_rank M_LogInfo = 8"
| "main_rank M_GoPrimary = 9"
| "main_rank M_Ready = 10"
| "main_rank M_Select = 11"
| "main_rank M_Finishing = 12"
| "main_rank M_Done = 13"
| "main_rank (M_Fatal site) = site_rank site"
| "main_rank (M_Exited site) = site_rank site"

fun main_failed :: "main_pc \<Rightarrow> fail_site option" where
  "main_failed (M_Fatal site) = Some site"
| "main_failed (M_Exited site) = Some site"
| "main_failed _ = None"

text \<open>What the environment must have answered for the routine to stand where it stands.\<close>

definition main_ok :: "Env \<Rightarrow> CollectorOptions \<Rightarrow> main_pc \<Rightarrow> bool" where
  "main_ok env opts pc \<longleftrightarrow>
     (0 < main_rank pc \<longrightarrow> fail_result env opts AtHealth = None) \<and>
     (1 < main_rank pc \<longrightarrow> fail_result env opts AtBuilder = None) \<and>
     (2 < main_rank pc \<longrightarrow> fail_result env opts AtChannel = None) \<and>
     (4 < main_rank pc \<longrightarrow> fail_result env opts AtListen = None) \<and>
     (\<forall>site. main_failed pc = Some site \<longrightarrow> fail_result env opts site \<noteq> None)"

definition zipkin_addr :: "CollectorOptions \<Rightarrow> string" where
  "zipkin_addr opts = portStr (CollectorZipkinHTTPPort opts)"

definition primary_addr :: "CollectorOptions \<Rightarrow> string" where
  "primary_addr opts = portStr (CollectorHTTPPort opts)"

definition zlog_call :: "CollectorOptions \<Rightarrow> event list" where
  "zlog_call opts =
     [EvNewRouter ZipkinRoutes, EvRegisterRoutes ZipkinRoutes,
      EvLogInfo ''Listening for Zipkin HTTP traffic'',
      EvListenAndServe (zipkin_addr opts) (RecoveryHandler True (MuxRouter ZipkinRoutes))]"

fun zipkin_log :: "Env \<Rightarrow> CollectorOptions \<Rightarrow> zipkin_pc \<Rightarrow> event list" where
  "zipkin_log env opts Z_NotStarted = []"
| "zipkin_log env opts Z_Start = []"
| "zipkin_log env opts Z_ListenAndServe = butlast (zlog_call opts)"
| "zipkin_log env opts Z_Serving = zlog_call opts"
| "zipkin_log env opts Z_Fatal =
     zlog_call opts @ [EvListenAndServeReturn (http_ListenAndServe env (zipkin_addr opts))]"
| "zipkin_log env opts Z_Exited =
     zlog_call opts @ [EvListenAndServeReturn (http_ListenAndServe env (zipkin_addr opts)),
                       EvLogFatal ''Could not launch service'', EvExit 1]"
| "zipkin_log env opts Z_Done =
     (if CollectorZipkinHTTPPort opts = 0 then []
      else zlog_call opts @ [EvListenAndServeReturn None])"

definition zipkin_ok :: "Env \<Rightarrow> CollectorOptions \<Rightarrow> zipkin_pc \<Rightarrow> bool" where
  "zipkin_ok env opts pc \<longleftrightarrow>
     (pc \<in> {Z_ListenAndServe, Z_Serving, Z_Fatal, Z_Exited} \<longrightarrow> CollectorZipkinHTTPPort opts \<noteq> 0) \<and>
     (pc \<in> {Z_Fatal, Z_Exited} \<longrightarrow> http_ListenAndServe env (zipkin_addr opts) \<noteq> None) \<and>
     (pc = Z_Done \<longrightarrow> CollectorZipkinHTTPPort opts = 0 \<or> http_ListenAndServe env (zipkin_addr opts) = None)"

definition plog_call :: "CollectorOptions \<Rightarrow> event list" where
  "plog_call opts =
     [EvListenAndServe (primary_addr opts) (RecoveryHandler True (MuxRouter APIRoutes))]"

fun primary_log :: "Env \<Rightarrow> CollectorOptions \<Rightarrow> primary_pc \<Rightarrow> event list" where
  "primary_log env opts P_NotStarted = []"
| "primary_log env opts P_ListenAndServe = []"
| "primary_log env opts P_Serving = plog_call opts"
| "primary_log env opts P_Fatal =
     plog_call opts @ [EvListenAndServeReturn (http_ListenAndServe env (primary_addr opts))]"
| "primary_log env opts P_Exited =
     plog_call opts @ [EvListenAndServeReturn (http_ListenAndServe env (primary_addr opts)),
                       EvLogFatal ''Could not launch service'', EvExit 1]"
| "primary_log env opts P_Set = plog_call opts @ [EvListenAndServeReturn None]"
| "primary_log env opts P_Done =
     plog_call opts @ [EvListenAndServeReturn None, EvHcSet StatusInternalServerError]"

definition primary_ok :: "Env \<Rightarrow> CollectorOptions \<Rightarrow> primary_pc \<Rightarrow> bool" where
  "primary_ok env opts pc \<longleftrightarrow>
     (pc \<in> {P_Fatal, P_Exited} \<longrightarrow> http_ListenAndServe env (primary_addr opts) \<noteq> None) \<and>
     (pc \<in> {P_Set, P_Done} \<longrightarrow> http_ListenAndServe env (primary_addr opts) = None)"

text \<open>The exit code of the process, from where the three tasks stand.\<close>

fun is_exited :: "main_pc \<Rightarrow> bool" where
  "is_exited (M_Exited site) = True"
| "is_exited _ = False"

definition exit_of :: "main_pc \<Rightarrow> zipkin_pc \<Rightarrow> primary_pc \<Rightarrow> int option" where
  "exit_of m z p =
     (if m = M_Done then Some 0
      else if is_exited m \<or> z = Z_Exited \<or> p = P_Exited then Some 1
      else None)"

text \<open>
  The invariant: each task has performed exactly the effects of its program up to where it
  stands, the environment has answered accordingly, a task is started exactly when the
  routine has passed its \<open>go\<close> statement, and the exit code fits.
\<close>

definition inv :: "Env \<Rightarrow> CollectorOptions \<Rightarrow> State \<Rightarrow> bool" where
  "inv env opts s \<longleftrightarrow>
     events_of Main (trace s) = main_log env opts (mainpc s) \<and>
     events_of ZipkinHTTP (trace s) = zipkin_log env opts (zpc s) \<and>
     events_of PrimaryHTTP (trace s) = primary_log env opts (ppc s) \<and>
     main_ok env opts (mainpc s) \<and>
     zipkin_ok env opts (zpc s) \<and>
     primary_ok env opts (ppc s) \<and>
     (zpc s = Z_NotStarted \<longleftrightarrow> main_rank (mainpc s) < 8) \<and>
     (ppc s = P_NotStarted \<longleftrightarrow> main_rank (mainpc s) < 10) \<and>
     exited s = exit_of (mainpc s) (zpc s) (ppc s)"

subsection \<open>The health check handle over a run\<close>

text \<open>
  The codes stored in the handle, in the order they are stored: the initial code of a
  successful healthcheck.Serve, the ready code of hc.Ready() and the code of hc.Set.
\<close>

fun status_write :: "event \<Rightarrow> int option" where
  "status_write (EvHealthServe c p None) = Some c"
| "status_write EvHcReady = Some StatusReady"
| "status_write (EvHcSet c) = Some c"
| "status_write _ = None"

definition status_history :: "(task \<times> event) list \<Rightarrow> int list" where
  "status_history tr = List.map_filter (\<lambda>x. status_write (snd x)) tr"

definition health_up :: "main_pc \<Rightarrow> bool" where
  "health_up pc \<longleftrightarrow> 0 < main_rank pc"

text \<open>The invariant of the handle: what has been stored, from where the tasks stand.\<close>

definition health_inv :: "State \<Rightarrow> bool" where
  "health_inv s \<longleftrightarrow>
     (let h = status_history (trace s);
          r = (11 \<le> main_rank (mainpc s));
          f = (ppc s = P_Done)
      in hc s = (if h = [] then None else Some (last h)) \<and>
         (if \<not> health_up (mainpc s) then h = []
          else if r \<and> f then
            h = [StatusServiceUnavailable, StatusReady, StatusInternalServerError] \<or>
            h = [StatusServiceUnavailable, StatusInternalServerError, StatusReady]
          else if r then h = [StatusServiceUnavailable, StatusReady]
          else if f then h = [StatusServiceUnavailable, StatusInternalServerError]
          else h = [StatusServiceUnavailable]))"

definition transitions :: "'a list \<Rightarrow> ('a \<times> 'a) list" where
  "transitions h = zip h (tl h)"

subsection \<open>Order of effects\<close>

text \<open>\<open>a\<close> happens before \<open>b\<close>: if \<open>b\<close> occurs, \<open>a\<close> occurs before its first occurrence.\<close>

definition happens_before :: "'a \<Rightarrow> 'a \<Rightarrow> 'a list \<Rightarrow> bool" where
  "happens_before a b tr \<longleftrightarrow> (b \<in> set tr \<longrightarrow> a \<in> set (takeWhile (\<lambda>x. x \<noteq> b) tr))"

definition ev_listen_ok :: "CollectorOptions \<Rightarrow> event" where
  "ev_listen_ok opts = EvNetListen ''tcp'' (portStr (CollectorPort opts)) None"

definition ev_starting :: event where
  "ev_starting = EvLogInfo ''Starting Jaeger Collector HTTP server''"

subsection \<open>Handlers and the recovery middleware\<close>

text \<open>
  Modelled from the spec: package pkg/recoveryhandler and the route handlers are not among
  the sources. After section 4.4 and the third property of section 8: a handler either
  writes a response or raises a fault; the recovery middleware intercepts a fault of the
  handler it wraps, logs it (with the stack trace when \<open>printStack\<close> is set) and answers
  that one request with HTTP 500.
\<close>

datatype outcome = Responded int | Panicked string

datatype log_entry = LogPanic string bool

fun ServeHTTP :: "(routes \<Rightarrow> 'q \<Rightarrow> outcome) \<Rightarrow> HandlerExpr \<Rightarrow> 'q \<Rightarrow> outcome \<times> log_entry list" where
  "ServeHTTP rt (MuxRouter r) q = (rt r q, [])"
| "ServeHTTP rt (RecoveryHandler printStack h) q =
     (case ServeHTTP rt h q of
        (Responded c, l) \<Rightarrow> (Responded c, l)
      | (Panicked v, l) \<Rightarrow> (Responded StatusInternalServerError, l @ [LogPanic v printStack]))"

text \<open>
  Modelled from the spec: the serving loop behind ListenAndServe, reduced to what section
  4.4 speaks of. Requests are served in turn; each served request adds its response code.
  A fault that reaches the loop is taken to end the listener, the worst case, which the
  middleware is there to exclude (the third component tells whether the listener still
  accepts requests).
\<close>

fun serve :: "(routes \<Rightarrow> 'q \<Rightarrow> outcome) \<Rightarrow> HandlerExpr \<Rightarrow> 'q list
    \<Rightarrow> int list \<times> log_entry list \<times> bool" where
  "serve rt h [] = ([], [], True)"
| "serve rt h (q # qs) =
     (case ServeHTTP rt h q of
        (Responded c, l) \<Rightarrow> (case serve rt h qs of (cs, ls, up) \<Rightarrow> (c # cs, l @ ls, up))
      | (Panicked v, l) \<Rightarrow> ([], l, False))"

definition response_of :: "outcome \<Rightarrow> int" where
  "response_of x = (case x of Responded c \<Rightarrow> c | Panicked v \<Rightarrow> StatusInternalServerError)"

definition entries_of :: "outcome \<Rightarrow> log_entry list" where
  "entries_of x = (case x of Responded c \<Rightarrow> [] | Panicked v \<Rightarrow> [LogPanic v True])"

section \<open>Sample environments, options and schedules\<close>

definition env_ok :: Env where
  "env_ok = \<lparr>healthcheck_Serve = (\<lambda>_ _. None),
             builder_NewSpanHandlerBuilder = None,
             tchannel_NewChannel = (\<lambda>_. None),
             net_Listen = (\<lambda>_ _. None),
             http_ListenAndServe = (\<lambda>_. Some ''listen tcp: address already in use'')\<rparr>"

definition env_bind_fails :: Env where
  "env_bind_fails = \<lparr>healthcheck_Serve = (\<lambda>_ _. None),
             builder_NewSpanHandlerBuilder = None,
             tchannel_NewChannel = (\<lambda>_. None),
             net_Listen = (\<lambda>_ _. Some ''listen tcp: bind failed''),
             http_ListenAndServe = (\<lambda>_. None)\<rparr>"

definition env_health_fails :: Env where
  "env_health_fails = \<lparr>healthcheck_Serve = (\<lambda>_ _. Some ''listen tcp :14269: bind: address already in use''),
             builder_NewSpanHandlerBuilder = None,
             tchannel_NewChannel = (\<lambda>_. None),
             net_Listen = (\<lambda>_ _. None),
             http_ListenAndServe = (\<lambda>_. None)\<rparr>"

definition env_serve_returns_nil :: Env where
  "env_serve_returns_nil = \<lparr>healthcheck_Serve = (\<lambda>_ _. None),
             builder_NewSpanHandlerBuilder = None,
             tchannel_NewChannel = (\<lambda>_. None),
             net_Listen = (\<lambda>_ _. None),
             http_ListenAndServe = (\<lambda>_. None)\<rparr>"

definition opts_default :: CollectorOptions where
  "opts_default = \<lparr>CollectorPort = 14267, CollectorHTTPPort = 14268,
                   CollectorZipkinHTTPPort = 9411, CollectorHealthCheckHTTPPort = 14269\<rparr>"

definition opts_no_zipkin :: CollectorOptions where
  "opts_no_zipkin = \<lparr>CollectorPort = 14267, CollectorHTTPPort = 14268,
                     CollectorZipkinHTTPPort = 0, CollectorHealthCheckHTTPPort = 14269\<rparr>"

definition opts_rpc_zero :: CollectorOptions where
  "opts_rpc_zero = \<lparr>CollectorPort = 0, CollectorHTTPPort = 14268,
                    CollectorZipkinHTTPPort = 9411, CollectorHealthCheckHTTPPort = 14269\<rparr>"

definition routes_sample :: "routes \<Rightarrow> string \<Rightarrow> outcome" where
  "routes_sample r q = (if q = ''/boom'' then Panicked ''nil pointer dereference'' else Responded 202)"

definition sched_startup :: "tick list" where
  "sched_startup = [TMain, TMain, TMain, TMain, TMain, TMain, TMain, TMain, TMain, TMain, TMain]"

definition sched_launched :: "tick list" where
  "sched_launched = [TMain, TMain, TMain, TMain, TMain, TMain, TMain, TMain, TMain, TMain, TZipkin]"

definition sched_zipkin_runs :: "tick list" where
  "sched_zipkin_runs = [TMain, TMain, TMain, TMain, TMain, TMain, TMain, TMain,
                        TZipkin, TMain, TZipkin, TMain, TZipkin, TMain]"

definition sched_to_listen :: "tick list" where
  "sched_to_listen = [TMain, TMain, TMain, TMain, TMain]"

definition sched_to_health :: "tick list" where
  "sched_to_health = [TMain]"

definition sched_serve_ends :: "tick list" where
  "sched_serve_ends = sched_startup @ [TPrimary, TPrimary, TPrimary]"

definition sched_serve_ends_early :: "tick list" where
  "sched_serve_ends_early =
     [TMain, TMain, TMain, TMain, TMain, TMain, TMain, TMain, TMain, TMain,
      TPrimary, TPrimary, TPrimary, TMain]"

definition sched_primary_fails :: "tick list" where
  "sched_primary_fails = sched_startup @ [TPrimary, TPrimary]"

section \<open>Proofs\<close>

subsection \<open>The invariant holds in every run\<close>

lemma events_of_append [simp]: "events_of t (xs @ ys) = events_of t xs @ events_of t ys"
  by (simp add: events_of_def)

lemma events_of_Nil [simp]: "events_of t [] = []"
  by (simp add: events_of_def)

lemma events_of_Cons [simp]:
  "events_of t ((t', e) # xs) = (if t' = t then e # events_of t xs else events_of t xs)"
  by (simp add: events_of_def)

lemmas log_defs = log_health_def log_builder_def log_channel_def log_server_def log_listen_def
  log_router_def log_launched_def log_ready_def zlog_call_def plog_call_def
  zipkin_addr_def primary_addr_def

lemma events_of_map_Pair [simp]:
  "events_of t (map (Pair t') evs) = (if t' = t then evs else [])"
  by (induction evs) auto

lemma emit_simps [simp]:
  "trace (emit t evs s) = trace s @ map (Pair t) evs"
  "mainpc (emit t evs s) = mainpc s"
  "zpc (emit t evs s) = zpc s"
  "ppc (emit t evs s) = ppc s"
  "hc (emit t evs s) = hc s"
  "exited (emit t evs s) = exited s"
  by (simp_all add: emit_def)

lemma Fatal_simps [simp]:
  "trace (Fatal t msg s) = trace s @ [(t, EvLogFatal msg), (t, EvExit 1)]"
  "mainpc (Fatal t msg s) = mainpc s"
  "zpc (Fatal t msg s) = zpc s"
  "ppc (Fatal t msg s) = ppc s"
  "hc (Fatal t msg s) = hc s"
  "exited (Fatal t msg s) = Some 1"
  by (simp_all add: Fatal_def)

lemma hc_Ready_simps [simp]:
  "trace (hc_Ready t s) = trace s @ [(t, EvHcReady)]"
  "mainpc (hc_Ready t s) = mainpc s"
  "zpc (hc_Ready t s) = zpc s"
  "ppc (hc_Ready t s) = ppc s"
  "hc (hc_Ready t s) = Some StatusReady"
  "exited (hc_Ready t s) = exited s"
  by (simp_all add: hc_Ready_def)

lemma hc_Set_simps [simp]:
  "trace (hc_Set t c s) = trace s @ [(t, EvHcSet c)]"
  "mainpc (hc_Set t c s) = mainpc s"
  "zpc (hc_Set t c s) = zpc s"
  "ppc (hc_Set t c s) = ppc s"
  "hc (hc_Set t c s) = Some c"
  "exited (hc_Set t c s) = exited s"
  by (simp_all add: hc_Set_def)

lemma inv_init: "inv env opts init"
  by (simp add: inv_def init_def main_ok_def zipkin_ok_def primary_ok_def exit_of_def)

lemma inv_main: "inv env opts s \<Longrightarrow> exited s = None \<Longrightarrow> inv env opts (Run_at (mainpc s) env opts s)"
  unfolding inv_def
  apply (elim conjE)
  apply (cases "mainpc s")
  apply (simp_all add: log_defs main_ok_def exit_of_def Let_def zipkin_ok_def primary_ok_def split: option.splits if_splits)
  done

lemma inv_zipkin:
  "inv env opts s \<Longrightarrow> exited s = None \<Longrightarrow>
   inv env opts (startZipkinHTTPAPI_at (zpc s) env (CollectorZipkinHTTPPort opts) s)"
  unfolding inv_def
  apply (elim conjE)
  apply (cases "zpc s")
  apply (simp_all add: log_defs main_ok_def exit_of_def Let_def zipkin_ok_def primary_ok_def split: option.splits if_splits)
  done

lemma inv_primary:
  "inv env opts s \<Longrightarrow> exited s = None \<Longrightarrow>
   inv env opts (primaryHTTP_at (ppc s) env (portStr (CollectorHTTPPort opts)) s)"
  unfolding inv_def
  apply (elim conjE)
  apply (cases "ppc s")
  apply (simp_all add: log_defs main_ok_def exit_of_def Let_def zipkin_ok_def primary_ok_def split: option.splits if_splits)
  done

lemma inv_signal: "inv env opts s \<Longrightarrow> exited s = None \<Longrightarrow> inv env opts (signal_step s)"
  unfolding inv_def signal_step_def
  apply (elim conjE)
  apply (simp_all add: log_defs main_ok_def exit_of_def Let_def zipkin_ok_def primary_ok_def split: option.splits if_splits)
  done

lemma inv_step: "inv env opts s \<Longrightarrow> inv env opts (step env opts s t)"
  by (cases t) (simp_all add: step_def inv_main inv_zipkin inv_primary inv_signal)

lemma inv_foldl: "inv env opts s \<Longrightarrow> inv env opts (foldl (step env opts) s sched)"
  by (induction sched arbitrary: s) (simp_all add: inv_step)

lemma inv_run: "inv env opts (run env opts sched)"
  by (simp add: run_def inv_foldl inv_init)

lemma status_history_append [simp]:
  "status_history (xs @ ys) = status_history xs @ status_history ys"
  by (simp add: status_history_def map_filter_def)

lemma status_history_simps [simp]:
  "status_history [] = []"
  "status_history ((t, e) # xs) =
     (case status_write e of None \<Rightarrow> status_history xs | Some c \<Rightarrow> c # status_history xs)"
  by (simp_all add: status_history_def map_filter_def split: option.splits)

lemma health_main:
  "inv env opts s \<Longrightarrow> health_inv s \<Longrightarrow> exited s = None \<Longrightarrow>
   health_inv (Run_at (mainpc s) env opts s)"
  unfolding inv_def health_inv_def
  apply (elim conjE)
  apply (cases "mainpc s")
  apply (simp_all add: Let_def health_up_def split: option.splits if_splits)
  done

lemma health_zipkin:
  "health_inv s \<Longrightarrow> health_inv (startZipkinHTTPAPI_at (zpc s) env p s)"
  unfolding health_inv_def
  apply (cases "zpc s")
  apply (simp_all add: Let_def split: option.splits if_splits)
  done

lemma health_primary:
  "inv env opts s \<Longrightarrow> health_inv s \<Longrightarrow> health_inv (primaryHTTP_at (ppc s) env a s)"
  unfolding inv_def health_inv_def
  apply (elim conjE)
  apply (cases "ppc s")
  apply (simp_all add: Let_def health_up_def split: option.splits if_splits)
  done

lemma health_signal: "health_inv s \<Longrightarrow> health_inv (signal_step s)"
  unfolding health_inv_def signal_step_def
  by (auto simp: Let_def health_up_def split: if_splits)

lemma health_step: "inv env opts s \<Longrightarrow> health_inv s \<Longrightarrow> health_inv (step env opts s t)"
  by (cases t) (simp_all add: step_def health_main health_zipkin health_primary health_signal)

lemma health_foldl:
  "inv env opts s \<Longrightarrow> health_inv s \<Longrightarrow> health_inv (foldl (step env opts) s sched)"
  by (induction sched arbitrary: s) (simp_all add: health_step inv_step)

lemma health_init: "health_inv init"
  by (simp add: health_inv_def init_def Let_def health_up_def)

lemma health_run: "health_inv (run env opts sched)"
  unfolding run_def by (rule health_foldl [OF inv_init health_init])

lemma mem_events_of: "(t, e) \<in> set tr \<longleftrightarrow> e \<in> set (events_of t tr)"
  by (induction tr) (auto split: if_splits)

lemma happens_before_local:
  "happens_before a b (events_of t tr) \<Longrightarrow> happens_before (t, a) (t, b) tr"
proof (induction tr)
  case Nil
  then show ?case by (simp add: happens_before_def)
next
  case (Cons x xs)
  obtain t' e where x: "x = (t', e)" by (cases x)
  show ?case
  proof (cases "x = (t, b)")
    case True
    with Cons.prems x show ?thesis by (simp add: happens_before_def)
  next
    case False
    with Cons x show ?thesis
      by (auto simp: happens_before_def split: if_splits)
  qed
qed

lemma main_events_run:
  "events_of Main (trace (run env opts sched)) = main_log env opts (mainpc (run env opts sched))"
  using inv_run [of env opts sched] by (simp add: inv_def)

lemma listen_before_ready_log:
  "happens_before (ev_listen_ok opts) EvHcReady (main_log env opts pc)"
proof (cases pc)
  case (M_Fatal site)
  then show ?thesis by (cases site) (simp_all add: happens_before_def log_defs ev_listen_ok_def)
next
  case (M_Exited site)
  then show ?thesis by (cases site) (simp_all add: happens_before_def log_defs ev_listen_ok_def)
qed (simp_all add: happens_before_def log_defs ev_listen_ok_def)

lemma ready_rank: "EvHcReady \<in> set (main_log env opts pc) \<longleftrightarrow> 11 \<le> main_rank pc"
proof (cases pc)
  case (M_Fatal site)
  then show ?thesis by (cases site) (simp_all add: log_defs)
next
  case (M_Exited site)
  then show ?thesis by (cases site) (simp_all add: log_defs)
qed (simp_all add: log_defs)

lemma status_ready_rank:
  assumes "hc (run env opts sched) = Some StatusReady"
  shows "11 \<le> main_rank (mainpc (run env opts sched))"
  using health_run [of env opts sched] assms
  by (auto simp: health_inv_def Let_def StatusReady_def StatusServiceUnavailable_def
      StatusInternalServerError_def split: if_splits)

subsection \<open>C3: the transport is bound before the health status becomes Ready\<close>

text \<open>
  Claim C3. In every run (any environment, any options, any schedule) the successful
  net.Listen on the RPC port comes before hc.Ready() in the trace, and whenever the health
  check holds the ready status the successful bind lies in the part of the trace before
  hc.Ready().
\<close>

theorem rpc_bind_before_ready:
  "happens_before (Main, ev_listen_ok opts) (Main, EvHcReady) (trace (run env opts sched)) \<and>
   (hc (run env opts sched) = Some StatusReady \<longrightarrow>
      (Main, ev_listen_ok opts) \<in> set (takeWhile (\<lambda>x. x \<noteq> (Main, EvHcReady)) (trace (run env opts sched))))"
proof -
  let ?tr = "trace (run env opts sched)"
  have hb: "happens_before (Main, ev_listen_ok opts) (Main, EvHcReady) ?tr"
    by (rule happens_before_local) (simp add: main_events_run listen_before_ready_log)
  have "(Main, EvHcReady) \<in> set ?tr" if "hc (run env opts sched) = Some StatusReady"
    using status_ready_rank [OF that] by (simp add: mem_events_of main_events_run ready_rank)
  with hb show ?thesis by (simp add: happens_before_def)
qed

lemma run_startup:
  "run env_ok opts_default sched_startup =
     \<lparr>mainpc = M_Select, zpc = Z_Start, ppc = P_ListenAndServe, hc = Some StatusReady,
      exited = None, trace = map (Pair Main) (log_ready opts_default)\<rparr>"
  by (simp add: run_def sched_startup_def step_def init_def env_ok_def emit_def hc_Ready_def log_defs)

theorem rpc_bind_before_ready_witness:
  "hc (run env_ok opts_default sched_startup) = Some StatusReady \<and>
   (Main, EvHcReady) \<in> set (trace (run env_ok opts_default sched_startup)) \<and>
   (Main, ev_listen_ok opts_default) \<in> set (takeWhile (\<lambda>x. x \<noteq> (Main, EvHcReady))
      (trace (run env_ok opts_default sched_startup)))"
  using rpc_bind_before_ready [of opts_default env_ok sched_startup]
  by (simp add: run_startup log_defs ev_listen_ok_def)

subsection \<open>Runs and their extensions\<close>

lemma run_append: "run env opts (sched @ ext) = foldl (step env opts) (run env opts sched) ext"
  by (simp add: run_def)

lemma step_exited: "exited s \<noteq> None \<Longrightarrow> step env opts s t = s"
  by (simp add: step_def)

lemma foldl_exited: "exited s \<noteq> None \<Longrightarrow> foldl (step env opts) s ext = s"
  by (induction ext) (simp_all add: step_exited)

lemma Run_at_trace: "\<exists>ys. trace (Run_at pc env opts s) = trace s @ ys"
  by (cases pc) (simp_all add: Let_def split: option.splits)

lemma zipkin_at_trace: "\<exists>ys. trace (startZipkinHTTPAPI_at pc env p s) = trace s @ ys"
  by (cases pc) (simp_all split: option.splits)

lemma primary_at_trace: "\<exists>ys. trace (primaryHTTP_at pc env a s) = trace s @ ys"
  by (cases pc) (simp_all split: option.splits)

lemma step_trace: "\<exists>ys. trace (step env opts s t) = trace s @ ys"
  by (cases t)
    (simp_all add: step_def signal_step_def Run_at_trace zipkin_at_trace primary_at_trace)

lemma foldl_trace: "\<exists>ys. trace (foldl (step env opts) s ext) = trace s @ ys"
proof (induction ext arbitrary: s)
  case Nil
  show ?case by simp
next
  case (Cons t ext)
  obtain ys where "trace (step env opts s t) = trace s @ ys"
    using step_trace by blast
  moreover obtain zs where
    "trace (foldl (step env opts) (step env opts s t) ext) = trace (step env opts s t) @ zs"
    using Cons.IH by blast
  ultimately show ?case by simp
qed

lemma trace_mono:
  "x \<in> set (trace (run env opts sched)) \<Longrightarrow> x \<in> set (trace (run env opts (sched @ ext)))"
proof -
  assume x: "x \<in> set (trace (run env opts sched))"
  obtain ys where "trace (run env opts (sched @ ext)) = trace (run env opts sched) @ ys"
    unfolding run_append using foldl_trace by blast
  with x show ?thesis by simp
qed

subsection \<open>Facts about the start-up routine's own effects\<close>

lemma rank_ge_11: "11 \<le> main_rank pc \<longleftrightarrow> pc = M_Select \<or> pc = M_Finishing \<or> pc = M_Done"
proof (cases pc)
  case (M_Fatal site)
  then show ?thesis by (cases site) simp_all
next
  case (M_Exited site)
  then show ?thesis by (cases site) simp_all
qed simp_all

lemma ready_directly_after_launch:
  assumes "EvHcReady \<in> set (main_log env opts pc)"
  shows "\<exists>pre post. main_log env opts pc = pre @ [EvGo PrimaryHTTP, EvHcReady] @ post"
proof -
  let ?pre = "log_router opts @ [EvGo ZipkinHTTP, ev_starting]"
  from assms have "pc = M_Select \<or> pc = M_Finishing \<or> pc = M_Done"
    by (simp add: ready_rank rank_ge_11)
  then consider "pc = M_Select" | "pc = M_Finishing" | "pc = M_Done" by blast
  then show ?thesis
  proof cases
    case 1
    then have "main_log env opts pc = ?pre @ [EvGo PrimaryHTTP, EvHcReady] @ []"
      by (simp add: log_ready_def log_launched_def ev_starting_def)
    then show ?thesis by blast
  next
    case 2
    then have "main_log env opts pc = ?pre @ [EvGo PrimaryHTTP, EvHcReady] @ [EvSignal]"
      by (simp add: log_ready_def log_launched_def ev_starting_def)
    then show ?thesis by blast
  next
    case 3
    then have "main_log env opts pc = ?pre @ [EvGo PrimaryHTTP, EvHcReady] @
        [EvSignal, EvLogInfo ''Jaeger Collector is finishing'', EvExit 0]"
      by (simp add: log_ready_def log_launched_def ev_starting_def)
    then show ?thesis by blast
  qed
qed

lemma go_before_ready_log:
  "t \<noteq> Main \<Longrightarrow> happens_before (EvGo t) EvHcReady (main_log env opts pc)"
proof (cases "EvHcReady \<in> set (main_log env opts pc)")
  case False
  then show ?thesis by (simp add: happens_before_def)
next
  case True
  assume "t \<noteq> Main"
  moreover from True have "pc = M_Select \<or> pc = M_Finishing \<or> pc = M_Done"
    by (simp add: ready_rank rank_ge_11)
  ultimately show ?thesis
    by (cases t) (auto simp: happens_before_def log_defs)
qed

lemma run_startup_gen:
  assumes "\<And>site. fail_result env opts site = None"
  shows "run env opts sched_startup =
     \<lparr>mainpc = M_Select, zpc = Z_Start, ppc = P_ListenAndServe, hc = Some StatusReady,
      exited = None, trace = map (Pair Main) (log_ready opts)\<rparr>"
proof -
  have "healthcheck_Serve env StatusServiceUnavailable (CollectorHealthCheckHTTPPort opts) = None"
    using assms [of AtHealth] by simp
  moreover have "builder_NewSpanHandlerBuilder env = None"
    using assms [of AtBuilder] by simp
  moreover have "tchannel_NewChannel env serviceName = None"
    using assms [of AtChannel] by simp
  moreover have "net_Listen env ''tcp'' (portStr (CollectorPort opts)) = None"
    using assms [of AtListen] by simp
  ultimately show ?thesis
    by (simp add: run_def sched_startup_def step_def init_def emit_def hc_Ready_def log_defs)
qed

lemma no_listen_call_in_log_ready: "EvListenAndServe a h \<notin> set (log_ready opts)"
  by (simp add: log_defs)

subsection \<open>C4: Ready is signalled right after the two launches\<close>

text \<open>
  Claim C4. In every run both \<open>go\<close> statements come before hc.Ready(), and in the start-up
  routine's program order hc.Ready() is the effect directly after the launch of the primary
  task. Whenever the routine stands at hc.Ready() and the process is alive, its next step
  performs it, in whatever state the two HTTP tasks are. When the four start-up calls
  succeed, the run that lets only the start-up routine move signals Ready while no task has
  called ListenAndServe at all.
\<close>

theorem ready_follows_launches_without_bind_ack:
  "happens_before (Main, EvGo ZipkinHTTP) (Main, EvHcReady) (trace (run env opts sched)) \<and>
   happens_before (Main, EvGo PrimaryHTTP) (Main, EvHcReady) (trace (run env opts sched)) \<and>
   ((Main, EvHcReady) \<in> set (trace (run env opts sched)) \<longrightarrow>
      (\<exists>pre post. events_of Main (trace (run env opts sched)) =
          pre @ [EvGo PrimaryHTTP, EvHcReady] @ post)) \<and>
   (mainpc (run env opts schedb) = M_Ready \<and> exited (run env opts schedb) = None \<longrightarrow>
      trace (run env opts (schedb @ [TMain])) = trace (run env opts schedb) @ [(Main, EvHcReady)] \<and>
      hc (run env opts (schedb @ [TMain])) = Some StatusReady \<and>
      zpc (run env opts (schedb @ [TMain])) = zpc (run env opts schedb) \<and>
      ppc (run env opts (schedb @ [TMain])) = ppc (run env opts schedb)) \<and>
   ((\<forall>site. fail_result env opts site = None) \<longrightarrow>
      (Main, EvHcReady) \<in> set (trace (run env opts sched_startup)) \<and>
      (\<forall>t a h. (t, EvListenAndServe a h) \<notin> set (trace (run env opts sched_startup))))"
proof (intro conjI impI)
  show "happens_before (Main, EvGo ZipkinHTTP) (Main, EvHcReady) (trace (run env opts sched))"
    by (rule happens_before_local) (simp add: main_events_run go_before_ready_log)
  show "happens_before (Main, EvGo PrimaryHTTP) (Main, EvHcReady) (trace (run env opts sched))"
    by (rule happens_before_local) (simp add: main_events_run go_before_ready_log)
next
  assume "(Main, EvHcReady) \<in> set (trace (run env opts sched))"
  then have "EvHcReady \<in> set (main_log env opts (mainpc (run env opts sched)))"
    by (simp add: mem_events_of main_events_run)
  from ready_directly_after_launch [OF this]
  show "\<exists>pre post. events_of Main (trace (run env opts sched)) =
          pre @ [EvGo PrimaryHTTP, EvHcReady] @ post"
    by (simp add: main_events_run)
next
  assume a: "mainpc (run env opts schedb) = M_Ready \<and> exited (run env opts schedb) = None"
  then have st: "run env opts (schedb @ [TMain]) = (hc_Ready Main (run env opts schedb))\<lparr>mainpc := M_Select\<rparr>"
    by (simp add: run_append step_def)
  show "trace (run env opts (schedb @ [TMain])) = trace (run env opts schedb) @ [(Main, EvHcReady)]"
    by (simp add: st)
  show "hc (run env opts (schedb @ [TMain])) = Some StatusReady"
    by (simp add: st)
  show "zpc (run env opts (schedb @ [TMain])) = zpc (run env opts schedb)"
    by (simp add: st)
  show "ppc (run env opts (schedb @ [TMain])) = ppc (run env opts schedb)"
    by (simp add: st)
next
  assume "\<forall>site. fail_result env opts site = None"
  then have r: "run env opts sched_startup =
     \<lparr>mainpc = M_Select, zpc = Z_Start, ppc = P_ListenAndServe, hc = Some StatusReady,
      exited = None, trace = map (Pair Main) (log_ready opts)\<rparr>"
    by (intro run_startup_gen) simp
  show "(Main, EvHcReady) \<in> set (trace (run env opts sched_startup))"
    by (simp add: r log_ready_def)
  show "\<forall>t a h. (t, EvListenAndServe a h) \<notin> set (trace (run env opts sched_startup))"
    using no_listen_call_in_log_ready [of _ _ opts] by (auto simp: r)
qed

lemma run_launched:
  "run env_ok opts_default sched_launched =
     \<lparr>mainpc = M_Ready, zpc = Z_ListenAndServe, ppc = P_ListenAndServe,
      hc = Some StatusServiceUnavailable, exited = None,
      trace = map (Pair Main) (log_launched opts_default) @
              map (Pair ZipkinHTTP) (butlast (zlog_call opts_default))\<rparr>"
  by (simp add: run_def sched_launched_def step_def init_def env_ok_def emit_def log_defs
      opts_default_def)

theorem ready_follows_launches_without_bind_ack_witness:
  "(Main, EvHcReady) \<in> set (trace (run env_ok opts_default sched_startup)) \<and>
   (Main, EvGo ZipkinHTTP) \<in> set (takeWhile (\<lambda>x. x \<noteq> (Main, EvHcReady))
      (trace (run env_ok opts_default sched_startup))) \<and>
   (Main, EvGo PrimaryHTTP) \<in> set (takeWhile (\<lambda>x. x \<noteq> (Main, EvHcReady))
      (trace (run env_ok opts_default sched_startup))) \<and>
   mainpc (run env_ok opts_default sched_launched) = M_Ready \<and>
   exited (run env_ok opts_default sched_launched) = None \<and>
   ppc (run env_ok opts_default sched_launched) = P_ListenAndServe \<and>
   hc (run env_ok opts_default (sched_launched @ [TMain])) = Some StatusReady \<and>
   (\<forall>site. fail_result env_ok opts_default site = None) \<and>
   (\<forall>t a h. (t, EvListenAndServe a h) \<notin> set (trace (run env_ok opts_default sched_startup)))"
proof -
  have f: "\<forall>site. fail_result env_ok opts_default site = None"
  proof
    fix site show "fail_result env_ok opts_default site = None"
      by (cases site) (simp_all add: env_ok_def)
  qed
  from f ready_follows_launches_without_bind_ack
    [where env = env_ok and opts = opts_default and sched = sched_startup and schedb = sched_launched]
  show ?thesis
    by (simp add: run_startup run_launched happens_before_def log_defs)
qed

subsection \<open>After a failed start-up step\<close>

lemma zipkin_at_mainpc [simp]: "mainpc (startZipkinHTTPAPI_at pc env p s) = mainpc s"
  by (cases pc) (simp_all split: option.splits)

lemma primary_at_mainpc [simp]: "mainpc (primaryHTTP_at pc env a s) = mainpc s"
  by (cases pc) (simp_all split: option.splits)

lemma step_failed:
  assumes "main_failed (mainpc s) = Some site"
  shows "main_failed (mainpc (step env opts s t)) = Some site"
proof (cases "exited s = None")
  case False
  then show ?thesis using assms by (simp add: step_def)
next
  case True
  show ?thesis
  proof (cases t)
    case TMain
    with True assms show ?thesis
      by (cases "mainpc s") (simp_all add: step_def)
  next
    case TSignal
    with True assms show ?thesis
      by (cases "mainpc s") (simp_all add: step_def signal_step_def)
  qed (use True assms in \<open>simp_all add: step_def\<close>)
qed

lemma foldl_failed:
  "main_failed (mainpc s) = Some site \<Longrightarrow>
   main_failed (mainpc (foldl (step env opts) s ext)) = Some site"
  by (induction ext arbitrary: s) (simp_all add: step_failed)

lemma failed_not_launched:
  assumes "inv env opts s" and "main_failed (mainpc s) = Some site"
  shows "zpc s = Z_NotStarted \<and> ppc s = P_NotStarted \<and>
         events_of ZipkinHTTP (trace s) = [] \<and> events_of PrimaryHTTP (trace s) = []"
proof -
  from assms(2) have "main_rank (mainpc s) < 8"
    by (cases "mainpc s"; cases site) simp_all
  with assms(1) show ?thesis by (simp add: inv_def)
qed

lemma failed_exit:
  assumes "inv env opts s" and "main_failed (mainpc s) = Some site"
  shows "exited s = (if mainpc s = M_Exited site then Some 1 else None)"
proof -
  from failed_not_launched [OF assms] have "zpc s = Z_NotStarted" "ppc s = P_NotStarted"
    by simp_all
  with assms show ?thesis
    by (cases "mainpc s") (simp_all add: inv_def exit_of_def)
qed

lemma step_main_failed:
  assumes "inv env opts s" and "main_failed (mainpc s) = Some site"
  shows "mainpc (step env opts s TMain) = M_Exited site"
proof (cases "mainpc s = M_Exited site")
  case True
  then show ?thesis by (simp add: step_def)
next
  case False
  with assms(2) have pc: "mainpc s = M_Fatal site" by (cases "mainpc s") simp_all
  with failed_exit [OF assms] have "exited s = None" by simp
  with pc show ?thesis by (simp add: step_def)
qed

lemma exited_main_stays:
  "mainpc s = M_Exited site \<Longrightarrow> mainpc (step env opts s t) = M_Exited site"
  by (cases t) (simp_all add: step_def signal_step_def)

lemma foldl_exited_main:
  "mainpc s = M_Exited site \<Longrightarrow> mainpc (foldl (step env opts) s ext) = M_Exited site"
  by (induction ext arbitrary: s) (simp_all add: exited_main_stays)

lemma failed_then_exits:
  assumes f: "main_failed (mainpc (run env opts sched)) = Some site" and m: "TMain \<in> set ext"
  shows "mainpc (run env opts (sched @ ext)) = M_Exited site"
proof -
  from m obtain pre post where ext: "ext = pre @ TMain # post"
    by (auto dest: split_list)
  let ?s = "run env opts (sched @ pre)"
  have "main_failed (mainpc ?s) = Some site"
    unfolding run_append by (rule foldl_failed [OF f])
  then have "mainpc (step env opts ?s TMain) = M_Exited site"
    by (rule step_main_failed [OF inv_run])
  then have "mainpc (foldl (step env opts) (step env opts ?s TMain) post) = M_Exited site"
    by (rule foldl_exited_main)
  then show ?thesis by (simp add: ext run_def)
qed

lemma failed_persists:
  "main_failed (mainpc (run env opts sched)) = Some site \<Longrightarrow>
   main_failed (mainpc (run env opts (sched @ ext))) = Some site"
  unfolding run_append by (rule foldl_failed)

lemma listen_failure_site:
  "EvNetListen n a (Some e) \<in> set (main_log env opts pc) \<Longrightarrow> main_failed pc = Some AtListen"
proof (cases pc)
  case (M_Fatal site)
  assume "EvNetListen n a (Some e) \<in> set (main_log env opts pc)"
  with M_Fatal show ?thesis by (cases site) (simp_all add: log_defs)
next
  case (M_Exited site)
  assume "EvNetListen n a (Some e) \<in> set (main_log env opts pc)"
  with M_Exited show ?thesis by (cases site) (simp_all add: log_defs)
qed (simp_all add: log_defs)

lemma health_failure_site:
  "EvHealthServe c p (Some e) \<in> set (main_log env opts pc) \<Longrightarrow> main_failed pc = Some AtHealth"
proof (cases pc)
  case (M_Fatal site)
  assume "EvHealthServe c p (Some e) \<in> set (main_log env opts pc)"
  with M_Fatal show ?thesis by (cases site) (simp_all add: log_defs)
next
  case (M_Exited site)
  assume "EvHealthServe c p (Some e) \<in> set (main_log env opts pc)"
  with M_Exited show ?thesis by (cases site) (simp_all add: log_defs)
qed (simp_all add: log_defs)

lemma failed_no_launch_events:
  "main_failed pc = Some site \<Longrightarrow> EvGo t \<notin> set (main_log env opts pc) \<and>
     EvHcReady \<notin> set (main_log env opts pc)"
  by (cases pc; cases site) (simp_all add: log_defs)

lemma failed_listen_health:
  assumes "health_inv s" and "main_failed (mainpc s) = Some AtListen" and "ppc s = P_NotStarted"
  shows "hc s = Some StatusServiceUnavailable"
proof -
  from assms(2) have "main_rank (mainpc s) = 4" by (cases "mainpc s") simp_all
  with assms(1,3) show ?thesis by (simp add: health_inv_def Let_def health_up_def)
qed

lemma failed_health_health:
  assumes "health_inv s" and "main_failed (mainpc s) = Some AtHealth"
  shows "hc s = None"
proof -
  from assms(2) have "main_rank (mainpc s) = 0" by (cases "mainpc s") simp_all
  with assms(1) show ?thesis by (simp add: health_inv_def Let_def health_up_def)
qed

lemma task_events_cases:
  assumes "(t, e) \<in> set tr"
    and "events_of ZipkinHTTP tr = []" and "events_of PrimaryHTTP tr = []"
  shows "t = Main \<and> e \<in> set (events_of Main tr)"
proof (cases t)
  case Main
  with assms(1) show ?thesis by (simp add: mem_events_of)
next
  case ZipkinHTTP
  with assms(1,2) show ?thesis by (simp add: mem_events_of)
next
  case PrimaryHTTP
  with assms(1,3) show ?thesis by (simp add: mem_events_of)
qed

subsection \<open>C6: a failed transport bind\<close>

text \<open>
  Claim C6. Suppose net.Listen on the RPC port has returned an error in a run. Then, however
  the run goes on: no task is ever launched (no \<open>go\<close> effect, both HTTP tasks not started and
  without any effect), hc.Ready() is never called and the health status stays at 503, the
  process never exits with code 0, and as soon as the start-up routine runs again the
  process has logged the fatal entry and exited with code 1.
\<close>

theorem transport_bind_failure_fatal:
  assumes "(Main, EvNetListen n a (Some e)) \<in> set (trace (run env opts sched))"
  shows "\<forall>ext s. s = run env opts (sched @ ext) \<longrightarrow>
           (\<forall>t x. (t, EvGo x) \<notin> set (trace s)) \<and>
           zpc s = Z_NotStarted \<and> ppc s = P_NotStarted \<and>
           events_of ZipkinHTTP (trace s) = [] \<and> events_of PrimaryHTTP (trace s) = [] \<and>
           (\<forall>t. (t, EvHcReady) \<notin> set (trace s)) \<and>
           hc s = Some StatusServiceUnavailable \<and>
           exited s \<noteq> Some 0 \<and>
           (TMain \<in> set ext \<longrightarrow>
              exited s = Some 1 \<and>
              (Main, EvLogFatal ''Unable to start listening on channel'') \<in> set (trace s) \<and>
              (Main, EvExit 1) \<in> set (trace s))"
proof (intro allI impI)
  fix ext s
  assume s: "s = run env opts (sched @ ext)"
  from assms have f0: "main_failed (mainpc (run env opts sched)) = Some AtListen"
    by (auto simp: mem_events_of main_events_run dest: listen_failure_site)
  then have f: "main_failed (mainpc s) = Some AtListen"
    unfolding s by (rule failed_persists)
  have i: "inv env opts s" unfolding s by (rule inv_run)
  have h: "health_inv s" unfolding s by (rule health_run)
  have ml: "events_of Main (trace s) = main_log env opts (mainpc s)"
    unfolding s by (rule main_events_run)
  note nl = failed_not_launched [OF i f]
  have no: "t = Main \<and> x \<in> set (main_log env opts (mainpc s))" if "(t, x) \<in> set (trace s)" for t x
    using task_events_cases [OF that] nl ml by simp
  have go: "\<forall>t x. (t, EvGo x) \<notin> set (trace s)"
    using no failed_no_launch_events [OF f] by blast
  have rd: "\<forall>t. (t, EvHcReady) \<notin> set (trace s)"
    using no failed_no_launch_events [OF f, of PrimaryHTTP] by blast
  have st: "hc s = Some StatusServiceUnavailable"
    using failed_listen_health [OF h f] nl by simp
  have ex: "exited s \<noteq> Some 0"
    using failed_exit [OF i f] by simp
  have pr: "exited s = Some 1 \<and>
      (Main, EvLogFatal ''Unable to start listening on channel'') \<in> set (trace s) \<and>
      (Main, EvExit 1) \<in> set (trace s)" if "TMain \<in> set ext"
  proof -
    have pc: "mainpc s = M_Exited AtListen"
      unfolding s by (rule failed_then_exits [OF f0 that])
    with failed_exit [OF i f] have "exited s = Some 1" by simp
    moreover from pc ml have "events_of Main (trace s) =
        fail_log env opts AtListen @ [EvLogFatal (fatal_msg AtListen), EvExit 1]"
      by simp
    then have "EvLogFatal ''Unable to start listening on channel'' \<in> set (events_of Main (trace s))
        \<and> EvExit 1 \<in> set (events_of Main (trace s))"
      by simp
    ultimately show ?thesis by (simp add: mem_events_of)
  qed
  from go nl rd st ex pr
  show "(\<forall>t x. (t, EvGo x) \<notin> set (trace s)) \<and>
           zpc s = Z_NotStarted \<and> ppc s = P_NotStarted \<and>
           events_of ZipkinHTTP (trace s) = [] \<and> events_of PrimaryHTTP (trace s) = [] \<and>
           (\<forall>t. (t, EvHcReady) \<notin> set (trace s)) \<and>
           hc s = Some StatusServiceUnavailable \<and>
           exited s \<noteq> Some 0 \<and>
           (TMain \<in> set ext \<longrightarrow>
              exited s = Some 1 \<and>
              (Main, EvLogFatal ''Unable to start listening on channel'') \<in> set (trace s) \<and>
              (Main, EvExit 1) \<in> set (trace s))"
    by blast
qed

lemma run_bind_fails:
  "run env_bind_fails opts_default sched_to_listen =
     \<lparr>mainpc = M_Fatal AtListen, zpc = Z_NotStarted, ppc = P_NotStarted,
      hc = Some StatusServiceUnavailable, exited = None,
      trace = map (Pair Main) (log_listen opts_default
                (Some ''listen tcp: bind failed''))\<rparr>"
  by (simp add: run_def sched_to_listen_def step_def init_def env_bind_fails_def emit_def log_defs)

theorem transport_bind_failure_fatal_witness:
  "(Main, EvNetListen ''tcp'' (portStr (CollectorPort opts_default))
      (Some ''listen tcp: bind failed''))
     \<in> set (trace (run env_bind_fails opts_default sched_to_listen)) \<and>
   exited (run env_bind_fails opts_default (sched_to_listen @ [TSignal, TMain, TZipkin])) = Some 1 \<and>
   hc (run env_bind_fails opts_default (sched_to_listen @ [TSignal, TMain, TZipkin]))
     = Some StatusServiceUnavailable \<and>
   ppc (run env_bind_fails opts_default (sched_to_listen @ [TSignal, TMain, TZipkin])) = P_NotStarted"
proof -
  have h: "(Main, EvNetListen ''tcp'' (portStr (CollectorPort opts_default))
      (Some ''listen tcp: bind failed''))
     \<in> set (trace (run env_bind_fails opts_default sched_to_listen))"
    by (simp add: run_bind_fails log_defs)
  from transport_bind_failure_fatal [OF h] h show ?thesis by simp
qed

subsection \<open>Which task mounts and serves what\<close>

lemma main_log_serving:
  "EvListenAndServe a h \<notin> set (main_log env opts pc) \<and>
   EvNewRouter ZipkinRoutes \<notin> set (main_log env opts pc) \<and>
   EvRegisterRoutes ZipkinRoutes \<notin> set (main_log env opts pc)"
proof (cases pc)
  case (M_Fatal site)
  then show ?thesis by (cases site) (simp_all add: log_defs)
next
  case (M_Exited site)
  then show ?thesis by (cases site) (simp_all add: log_defs)
qed (simp_all add: log_defs)

lemma primary_log_serving:
  "(EvListenAndServe a h \<in> set (primary_log env opts pc) \<longrightarrow>
      a = primary_addr opts \<and> h = RecoveryHandler True (MuxRouter APIRoutes)) \<and>
   EvNewRouter r \<notin> set (primary_log env opts pc) \<and>
   EvRegisterRoutes r \<notin> set (primary_log env opts pc)"
  by (cases pc) (simp_all add: log_defs)

lemma zipkin_log_serving:
  "EvListenAndServe a h \<in> set (zipkin_log env opts pc) \<Longrightarrow>
      a = zipkin_addr opts \<and> h = RecoveryHandler True (MuxRouter ZipkinRoutes)"
  by (cases pc) (simp_all add: log_defs split: if_splits)

lemma zipkin_disabled_log:
  assumes "zipkin_ok env opts pc" and "CollectorZipkinHTTPPort opts = 0"
  shows "zipkin_log env opts pc = [] \<and> (pc = Z_NotStarted \<or> pc = Z_Start \<or> pc = Z_Done)"
  using assms by (cases pc) (simp_all add: zipkin_ok_def)

lemma zipkin_events_run:
  "events_of ZipkinHTTP (trace (run env opts sched)) = zipkin_log env opts (zpc (run env opts sched))"
  using inv_run [of env opts sched] by (simp add: inv_def)

lemma primary_events_run:
  "events_of PrimaryHTTP (trace (run env opts sched)) = primary_log env opts (ppc (run env opts sched))"
  using inv_run [of env opts sched] by (simp add: inv_def)

subsection \<open>C5: a secondary port of 0 disables the secondary front-end\<close>

text \<open>
  Claim C5. When the Zipkin HTTP port is 0, in every run the secondary task performs no
  effect at all and only ever stands before its start, at its start or at its end; the only
  router created and the only route table registered are those of the primary API, and the
  only ListenAndServe call is the primary task's, on the primary router.
\<close>

theorem zipkin_port_zero_no_listener:
  assumes "CollectorZipkinHTTPPort opts = 0"
  shows "events_of ZipkinHTTP (trace (run env opts sched)) = [] \<and>
         (zpc (run env opts sched) = Z_NotStarted \<or> zpc (run env opts sched) = Z_Start \<or>
          zpc (run env opts sched) = Z_Done) \<and>
         (\<forall>t a h. (t, EvListenAndServe a h) \<in> set (trace (run env opts sched)) \<longrightarrow>
            t = PrimaryHTTP \<and> h = RecoveryHandler True (MuxRouter APIRoutes)) \<and>
         (\<forall>t. (t, EvNewRouter ZipkinRoutes) \<notin> set (trace (run env opts sched))) \<and>
         (\<forall>t. (t, EvRegisterRoutes ZipkinRoutes) \<notin> set (trace (run env opts sched)))"
proof -
  let ?s = "run env opts sched"
  have "zipkin_ok env opts (zpc ?s)"
    using inv_run [of env opts sched] by (simp add: inv_def)
  from zipkin_disabled_log [OF this assms]
  have z: "events_of ZipkinHTTP (trace ?s) = []"
    and pc: "zpc ?s = Z_NotStarted \<or> zpc ?s = Z_Start \<or> zpc ?s = Z_Done"
    by (simp_all add: zipkin_events_run)
  have las: "t = PrimaryHTTP \<and> h = RecoveryHandler True (MuxRouter APIRoutes)"
    if "(t, EvListenAndServe a h) \<in> set (trace ?s)" for t a h
  proof (cases t)
    case Main
    with that main_log_serving [of a h env opts "mainpc ?s"] show ?thesis
      by (simp add: mem_events_of main_events_run)
  next
    case ZipkinHTTP
    with that z show ?thesis by (simp add: mem_events_of)
  next
    case PrimaryHTTP
    with that primary_log_serving [of a h env opts "ppc ?s"] show ?thesis
      by (simp add: mem_events_of primary_events_run)
  qed
  have nr: "(t, EvNewRouter ZipkinRoutes) \<notin> set (trace ?s)" for t
  proof (cases t)
    case Main
    with main_log_serving [of _ _ env opts "mainpc ?s"] show ?thesis
      by (simp add: mem_events_of main_events_run)
  next
    case ZipkinHTTP
    with z show ?thesis by (simp add: mem_events_of)
  next
    case PrimaryHTTP
    with primary_log_serving [of _ _ env opts "ppc ?s"] show ?thesis
      by (simp add: mem_events_of primary_events_run)
  qed
  have rr: "(t, EvRegisterRoutes ZipkinRoutes) \<notin> set (trace ?s)" for t
  proof (cases t)
    case Main
    with main_log_serving [of _ _ env opts "mainpc ?s"] show ?thesis
      by (simp add: mem_events_of main_events_run)
  next
    case ZipkinHTTP
    with z show ?thesis by (simp add: mem_events_of)
  next
    case PrimaryHTTP
    with primary_log_serving [of _ _ env opts "ppc ?s"] show ?thesis
      by (simp add: mem_events_of primary_events_run)
  qed
  from z pc las nr rr show ?thesis by blast
qed

lemma run_no_zipkin:
  "run env_ok opts_no_zipkin sched_zipkin_runs =
     \<lparr>mainpc = M_Select, zpc = Z_Done, ppc = P_ListenAndServe, hc = Some StatusReady,
      exited = None, trace = map (Pair Main) (log_ready opts_no_zipkin)\<rparr>"
  by (simp add: run_def sched_zipkin_runs_def step_def init_def env_ok_def emit_def hc_Ready_def
      log_defs opts_no_zipkin_def)

theorem zipkin_port_zero_no_listener_witness:
  "CollectorZipkinHTTPPort opts_no_zipkin = 0 \<and>
   zpc (run env_ok opts_no_zipkin sched_zipkin_runs) = Z_Done \<and>
   events_of ZipkinHTTP (trace (run env_ok opts_no_zipkin sched_zipkin_runs)) = [] \<and>
   (\<forall>t. (t, EvNewRouter ZipkinRoutes) \<notin> set (trace (run env_ok opts_no_zipkin sched_zipkin_runs)))"
proof -
  have h: "CollectorZipkinHTTPPort opts_no_zipkin = 0" by (simp add: opts_no_zipkin_def)
  from zipkin_port_zero_no_listener [OF h, of env_ok sched_zipkin_runs] h
  show ?thesis by (simp add: run_no_zipkin)
qed

subsection \<open>C7: a failed health check server\<close>

lemma health_failed_log:
  assumes "main_failed pc = Some AtHealth"
    and "EvHealthServe c p (Some e) \<in> set (main_log env opts pc)"
    and "x \<in> set (main_log env opts pc)"
  shows "x = EvHealthServe c p (Some e) \<or>
         x = EvLogFatal ''Could not start the health check server.'' \<or> x = EvExit 1"
  using assms by (cases pc) (auto simp: log_defs)

text \<open>
  Claim C7. Suppose healthcheck.Serve has returned an error in a run. Then, however the run
  goes on, the whole trace consists of that failed call, the fatal log entry and the exit,
  all by the start-up routine: the span handler builder, the transport channel, the
  thrift server, the transport listener, the routers and both HTTP tasks are never created,
  no health check handle exists, the process never exits with code 0, and as soon as the
  routine runs again the process has logged the fatal entry and exited with code 1.
\<close>

theorem health_server_failure_fatal:
  assumes "(Main, EvHealthServe c p (Some e)) \<in> set (trace (run env opts sched))"
  shows "\<forall>ext s. s = run env opts (sched @ ext) \<longrightarrow>
           (\<forall>t x. (t, x) \<in> set (trace s) \<longrightarrow>
              t = Main \<and> (x = EvHealthServe c p (Some e) \<or>
                          x = EvLogFatal ''Could not start the health check server.'' \<or>
                          x = EvExit 1)) \<and>
           (\<forall>t r. (t, EvNewSpanHandlerBuilder r) \<notin> set (trace s)) \<and>
           (\<forall>t m r. (t, EvNewChannel m r) \<notin> set (trace s)) \<and>
           (\<forall>t. (t, EvNewServer) \<notin> set (trace s)) \<and>
           (\<forall>t m a r. (t, EvNetListen m a r) \<notin> set (trace s)) \<and>
           (\<forall>t r. (t, EvNewRouter r) \<notin> set (trace s)) \<and>
           (\<forall>t x. (t, EvGo x) \<notin> set (trace s)) \<and>
           (\<forall>t a h. (t, EvListenAndServe a h) \<notin> set (trace s)) \<and>
           zpc s = Z_NotStarted \<and> ppc s = P_NotStarted \<and>
           hc s = None \<and>
           exited s \<noteq> Some 0 \<and>
           (TMain \<in> set ext \<longrightarrow>
              exited s = Some 1 \<and>
              (Main, EvLogFatal ''Could not start the health check server.'') \<in> set (trace s) \<and>
              (Main, EvExit 1) \<in> set (trace s))"
proof (intro allI impI)
  fix ext s
  assume s: "s = run env opts (sched @ ext)"
  from assms have f0: "main_failed (mainpc (run env opts sched)) = Some AtHealth"
    by (auto simp: mem_events_of main_events_run dest: health_failure_site)
  then have f: "main_failed (mainpc s) = Some AtHealth"
    unfolding s by (rule failed_persists)
  have i: "inv env opts s" unfolding s by (rule inv_run)
  have h: "health_inv s" unfolding s by (rule health_run)
  have ml: "events_of Main (trace s) = main_log env opts (mainpc s)"
    unfolding s by (rule main_events_run)
  have ev: "EvHealthServe c p (Some e) \<in> set (main_log env opts (mainpc s))"
    using trace_mono [OF assms, of ext] by (simp add: s [symmetric] mem_events_of ml)
  note nl = failed_not_launched [OF i f]
  have only: "t = Main \<and> (x = EvHealthServe c p (Some e) \<or>
      x = EvLogFatal ''Could not start the health check server.'' \<or> x = EvExit 1)"
    if "(t, x) \<in> set (trace s)" for t x
  proof -
    from task_events_cases [OF that] nl ml
    have "t = Main" and "x \<in> set (main_log env opts (mainpc s))" by simp_all
    with health_failed_log [OF f ev] show ?thesis by blast
  qed
  have st: "hc s = None" by (rule failed_health_health [OF h f])
  have ex: "exited s \<noteq> Some 0"
    using failed_exit [OF i f] by simp
  have pr: "exited s = Some 1 \<and>
      (Main, EvLogFatal ''Could not start the health check server.'') \<in> set (trace s) \<and>
      (Main, EvExit 1) \<in> set (trace s)" if "TMain \<in> set ext"
  proof -
    have pc: "mainpc s = M_Exited AtHealth"
      unfolding s by (rule failed_then_exits [OF f0 that])
    with failed_exit [OF i f] have "exited s = Some 1" by simp
    moreover from pc ml have "events_of Main (trace s) =
        fail_log env opts AtHealth @ [EvLogFatal (fatal_msg AtHealth), EvExit 1]"
      by simp
    then have "EvLogFatal ''Could not start the health check server.'' \<in> set (events_of Main (trace s))
        \<and> EvExit 1 \<in> set (events_of Main (trace s))"
      by simp
    ultimately show ?thesis by (simp add: mem_events_of)
  qed
  have a1: "\<forall>t r. (t, EvNewSpanHandlerBuilder r) \<notin> set (trace s)" using only by blast
  have a2: "\<forall>t m r. (t, EvNewChannel m r) \<notin> set (trace s)" using only by blast
  have a3: "\<forall>t. (t, EvNewServer) \<notin> set (trace s)" using only by blast
  have a4: "\<forall>t m a r. (t, EvNetListen m a r) \<notin> set (trace s)" using only by blast
  have a5: "\<forall>t r. (t, EvNewRouter r) \<notin> set (trace s)" using only by blast
  have a6: "\<forall>t x. (t, EvGo x) \<notin> set (trace s)" using only by blast
  have a7: "\<forall>t a h. (t, EvListenAndServe a h) \<notin> set (trace s)" using only by blast
  from only a1 a2 a3 a4 a5 a6 a7 nl st ex pr
  show "(\<forall>t x. (t, x) \<in> set (trace s) \<longrightarrow>
              t = Main \<and> (x = EvHealthServe c p (Some e) \<or>
                          x = EvLogFatal ''Could not start the health check server.'' \<or>
                          x = EvExit 1)) \<and>
           (\<forall>t r. (t, EvNewSpanHandlerBuilder r) \<notin> set (trace s)) \<and>
           (\<forall>t m r. (t, EvNewChannel m r) \<notin> set (trace s)) \<and>
           (\<forall>t. (t, EvNewServer) \<notin> set (trace s)) \<and>
           (\<forall>t m a r. (t, EvNetListen m a r) \<notin> set (trace s)) \<and>
           (\<forall>t r. (t, EvNewRouter r) \<notin> set (trace s)) \<and>
           (\<forall>t x. (t, EvGo x) \<notin> set (trace s)) \<and>
           (\<forall>t a h. (t, EvListenAndServe a h) \<notin> set (trace s)) \<and>
           zpc s = Z_NotStarted \<and> ppc s = P_NotStarted \<and>
           hc s = None \<and>
           exited s \<noteq> Some 0 \<and>
           (TMain \<in> set ext \<longrightarrow>
              exited s = Some 1 \<and>
              (Main, EvLogFatal ''Could not start the health check server.'') \<in> set (trace s) \<and>
              (Main, EvExit 1) \<in> set (trace s))"
    by (intro conjI) blast+
qed

lemma run_health_fails:
  "run env_health_fails opts_default sched_to_health =
     \<lparr>mainpc = M_Fatal AtHealth, zpc = Z_NotStarted, ppc = P_NotStarted,
      hc = None, exited = None,
      trace = map (Pair Main) (log_health opts_default
                (Some ''listen tcp :14269: bind: address already in use''))\<rparr>"
  by (simp add: run_def sched_to_health_def step_def init_def env_health_fails_def emit_def log_defs)

theorem health_server_failure_fatal_witness:
  "(Main, EvHealthServe StatusServiceUnavailable (CollectorHealthCheckHTTPPort opts_default)
      (Some ''listen tcp :14269: bind: address already in use''))
     \<in> set (trace (run env_health_fails opts_default sched_to_health)) \<and>
   exited (run env_health_fails opts_default (sched_to_health @ [TPrimary, TMain, TMain])) = Some 1 \<and>
   hc (run env_health_fails opts_default (sched_to_health @ [TPrimary, TMain, TMain])) = None \<and>
   (\<forall>t m a r. (t, EvNetListen m a r) \<notin>
      set (trace (run env_health_fails opts_default (sched_to_health @ [TPrimary, TMain, TMain]))))"
proof -
  have h: "(Main, EvHealthServe StatusServiceUnavailable (CollectorHealthCheckHTTPPort opts_default)
      (Some ''listen tcp :14269: bind: address already in use''))
     \<in> set (trace (run env_health_fails opts_default sched_to_health))"
    by (simp add: run_health_fails log_defs)
  from health_server_failure_fatal [OF h] h show ?thesis by simp
qed

subsection \<open>C8: the health status over a run\<close>

lemma launched_before_ready_log:
  assumes "a \<in> set (log_launched opts)"
  shows "happens_before a EvHcReady (main_log env opts pc)"
proof (cases "EvHcReady \<in> set (main_log env opts pc)")
  case False
  then show ?thesis by (simp add: happens_before_def)
next
  case True
  then have "pc = M_Select \<or> pc = M_Finishing \<or> pc = M_Done"
    by (simp add: ready_rank rank_ge_11)
  then obtain post where "main_log env opts pc = log_launched opts @ EvHcReady # post"
    by (auto simp: log_ready_def)
  moreover have "EvHcReady \<notin> set (log_launched opts)"
    by (simp add: log_defs)
  ultimately have "takeWhile (\<lambda>x. x \<noteq> EvHcReady) (main_log env opts pc) = log_launched opts"
    by (auto simp: takeWhile_tail takeWhile_eq_all_conv)
  with assms show ?thesis by (simp add: happens_before_def)
qed

lemma startup_before_ready:
  "a \<in> set (log_launched opts) \<Longrightarrow>
   happens_before (Main, a) (Main, EvHcReady) (trace (run env opts sched))"
  by (rule happens_before_local) (simp add: main_events_run launched_before_ready_log)

lemma history_cases:
  "status_history (trace (run env opts sched)) \<in>
     {[], [StatusServiceUnavailable],
      [StatusServiceUnavailable, StatusReady],
      [StatusServiceUnavailable, StatusInternalServerError],
      [StatusServiceUnavailable, StatusReady, StatusInternalServerError],
      [StatusServiceUnavailable, StatusInternalServerError, StatusReady]}"
  using health_run [of env opts sched]
  by (auto simp: health_inv_def Let_def split: if_splits)

lemma history_props:
  assumes "h \<in> {[], [StatusServiceUnavailable],
      [StatusServiceUnavailable, StatusReady],
      [StatusServiceUnavailable, StatusInternalServerError],
      [StatusServiceUnavailable, StatusReady, StatusInternalServerError],
      [StatusServiceUnavailable, StatusInternalServerError, StatusReady]}"
  shows "(h \<noteq> [] \<longrightarrow> hd h = StatusServiceUnavailable) \<and>
         count_list (transitions h) (StatusServiceUnavailable, StatusReady) \<le> 1 \<and>
         count_list (transitions h) (StatusReady, StatusInternalServerError) \<le> 1 \<and>
         (\<forall>x \<in> set (transitions h). snd x \<noteq> StatusServiceUnavailable)"
  using assms
  by (auto simp: transitions_def StatusServiceUnavailable_def StatusReady_def
      StatusInternalServerError_def)

lemma history_without_nil_return:
  assumes "http_ListenAndServe env (portStr (CollectorHTTPPort opts)) \<noteq> None"
  shows "status_history (trace (run env opts sched)) \<in>
     {[], [StatusServiceUnavailable], [StatusServiceUnavailable, StatusReady]}"
proof -
  have "primary_ok env opts (ppc (run env opts sched))"
    using inv_run [of env opts sched] by (simp add: inv_def)
  with assms have "ppc (run env opts sched) \<noteq> P_Done"
    by (auto simp: primary_ok_def primary_addr_def)
  with health_run [of env opts sched] show ?thesis
    by (auto simp: health_inv_def Let_def split: if_splits)
qed

text \<open>
  Claim C8. In every run, the codes stored in the health check handle, in the order they are
  stored, form one of six sequences: nothing (no handle yet), 503, 503 200, 503 500,
  503 200 500 or 503 500 200; the handle holds the last of them. Hence the status starts
  at 503 (Unavailable), the step from Unavailable to Ready and the step from Ready to Failed
  are each taken at most once, and no step ever leads back to Unavailable. hc.Ready() comes
  after the four successful start-up calls (health check server, span handler builder,
  transport channel, transport listener). When ListenAndServe of the primary task does not
  return nil (net/http documents that it never does), the sequence is nothing, 503 or
  503 200.
\<close>

theorem health_status_monotonic:
  "status_history (trace (run env opts sched)) \<in>
     {[], [StatusServiceUnavailable],
      [StatusServiceUnavailable, StatusReady],
      [StatusServiceUnavailable, StatusInternalServerError],
      [StatusServiceUnavailable, StatusReady, StatusInternalServerError],
      [StatusServiceUnavailable, StatusInternalServerError, StatusReady]} \<and>
   (http_ListenAndServe env (portStr (CollectorHTTPPort opts)) \<noteq> None \<longrightarrow>
      status_history (trace (run env opts sched)) \<in>
        {[], [StatusServiceUnavailable], [StatusServiceUnavailable, StatusReady]}) \<and>
   hc (run env opts sched) =
     (if status_history (trace (run env opts sched)) = [] then None
      else Some (last (status_history (trace (run env opts sched))))) \<and>
   (status_history (trace (run env opts sched)) \<noteq> [] \<longrightarrow>
      hd (status_history (trace (run env opts sched))) = StatusServiceUnavailable) \<and>
   count_list (transitions (status_history (trace (run env opts sched))))
      (StatusServiceUnavailable, StatusReady) \<le> 1 \<and>
   count_list (transitions (status_history (trace (run env opts sched))))
      (StatusReady, StatusInternalServerError) \<le> 1 \<and>
   (\<forall>x \<in> set (transitions (status_history (trace (run env opts sched)))).
      snd x \<noteq> StatusServiceUnavailable) \<and>
   happens_before
     (Main, EvHealthServe StatusServiceUnavailable (CollectorHealthCheckHTTPPort opts) None)
     (Main, EvHcReady) (trace (run env opts sched)) \<and>
   happens_before (Main, EvNewSpanHandlerBuilder None) (Main, EvHcReady)
     (trace (run env opts sched)) \<and>
   happens_before (Main, EvNewChannel serviceName None) (Main, EvHcReady)
     (trace (run env opts sched)) \<and>
   happens_before (Main, EvNetListen ''tcp'' (portStr (CollectorPort opts)) None)
     (Main, EvHcReady) (trace (run env opts sched))"
proof -
  have "hc (run env opts sched) =
     (if status_history (trace (run env opts sched)) = [] then None
      else Some (last (status_history (trace (run env opts sched)))))"
    using health_run [of env opts sched] by (simp add: health_inv_def Let_def)
  moreover note history_cases [of env opts sched]
    history_props [OF history_cases [of env opts sched]]
  moreover have "http_ListenAndServe env (portStr (CollectorHTTPPort opts)) \<noteq> None \<longrightarrow>
      status_history (trace (run env opts sched)) \<in>
        {[], [StatusServiceUnavailable], [StatusServiceUnavailable, StatusReady]}"
    using history_without_nil_return [of env opts sched] by blast
  moreover have "happens_before
     (Main, EvHealthServe StatusServiceUnavailable (CollectorHealthCheckHTTPPort opts) None)
     (Main, EvHcReady) (trace (run env opts sched))"
    by (rule startup_before_ready) (simp add: log_defs)
  moreover have "happens_before (Main, EvNewSpanHandlerBuilder None) (Main, EvHcReady)
     (trace (run env opts sched))"
    by (rule startup_before_ready) (simp add: log_defs)
  moreover have "happens_before (Main, EvNewChannel serviceName None) (Main, EvHcReady)
     (trace (run env opts sched))"
    by (rule startup_before_ready) (simp add: log_defs)
  moreover have "happens_before (Main, EvNetListen ''tcp'' (portStr (CollectorPort opts)) None)
     (Main, EvHcReady) (trace (run env opts sched))"
    by (rule startup_before_ready) (simp add: log_defs)
  ultimately show ?thesis by blast
qed

lemma run_serve_ends:
  "run env_serve_returns_nil opts_default sched_serve_ends =
     \<lparr>mainpc = M_Select, zpc = Z_Start, ppc = P_Done, hc = Some StatusInternalServerError,
      exited = None,
      trace = map (Pair Main) (log_ready opts_default) @
              map (Pair PrimaryHTTP) (primary_log env_serve_returns_nil opts_default P_Done)\<rparr>"
  by (simp add: run_def sched_serve_ends_def sched_startup_def step_def init_def
      env_serve_returns_nil_def emit_def hc_Ready_def hc_Set_def log_defs)

theorem health_status_monotonic_witness:
  "status_history (trace (run env_serve_returns_nil opts_default sched_serve_ends)) =
     [StatusServiceUnavailable, StatusReady, StatusInternalServerError] \<and>
   hc (run env_serve_returns_nil opts_default sched_serve_ends) = Some StatusInternalServerError \<and>
   (Main, EvHcReady) \<in> set (trace (run env_serve_returns_nil opts_default sched_serve_ends)) \<and>
   (Main, EvNetListen ''tcp'' (portStr (CollectorPort opts_default)) None) \<in>
     set (takeWhile (\<lambda>x. x \<noteq> (Main, EvHcReady))
       (trace (run env_serve_returns_nil opts_default sched_serve_ends))) \<and>
   transitions (status_history (trace (run env_serve_returns_nil opts_default sched_serve_ends))) =
     [(StatusServiceUnavailable, StatusReady), (StatusReady, StatusInternalServerError)] \<and>
   http_ListenAndServe env_ok (portStr (CollectorHTTPPort opts_default)) \<noteq> None \<and>
   status_history (trace (run env_ok opts_default sched_primary_fails)) \<in>
     {[], [StatusServiceUnavailable], [StatusServiceUnavailable, StatusReady]}"
proof -
  have n: "http_ListenAndServe env_ok (portStr (CollectorHTTPPort opts_default)) \<noteq> None"
    by (simp add: env_ok_def)
  with health_status_monotonic [of env_ok opts_default sched_primary_fails]
  have e: "status_history (trace (run env_ok opts_default sched_primary_fails)) \<in>
     {[], [StatusServiceUnavailable], [StatusServiceUnavailable, StatusReady]}"
    by blast
  have h: "status_history (trace (run env_serve_returns_nil opts_default sched_serve_ends)) =
     [StatusServiceUnavailable, StatusReady, StatusInternalServerError]"
    by (simp add: run_serve_ends log_defs)
  have r: "(Main, EvHcReady) \<in> set (trace (run env_serve_returns_nil opts_default sched_serve_ends))"
    by (simp add: run_serve_ends log_defs)
  from health_status_monotonic [of env_serve_returns_nil opts_default sched_serve_ends] h r
  have "hc (run env_serve_returns_nil opts_default sched_serve_ends) = Some StatusInternalServerError \<and>
   (Main, EvNetListen ''tcp'' (portStr (CollectorPort opts_default)) None) \<in>
     set (takeWhile (\<lambda>x. x \<noteq> (Main, EvHcReady))
       (trace (run env_serve_returns_nil opts_default sched_serve_ends)))"
    by (simp add: happens_before_def)
  moreover have "transitions (status_history (trace (run env_serve_returns_nil opts_default sched_serve_ends))) =
     [(StatusServiceUnavailable, StatusReady), (StatusReady, StatusInternalServerError)]"
    by (simp add: h transitions_def)
  ultimately show ?thesis using h r n e by blast
qed

text \<open>
  The sixth sequence does occur in the model: if ListenAndServe of the primary task returns
  nil before the start-up routine reaches hc.Ready(), the handle goes 503, 500, 200.
  (net/http documents that ListenAndServe always returns a non-nil error.)
\<close>

lemma run_serve_ends_early:
  "status_history (trace (run env_serve_returns_nil opts_default sched_serve_ends_early)) =
     [StatusServiceUnavailable, StatusInternalServerError, StatusReady]"
  by (simp add: run_def sched_serve_ends_early_def step_def init_def
      env_serve_returns_nil_def emit_def hc_Ready_def hc_Set_def)

subsection \<open>C10: the write of the failure status in the primary task\<close>

lemma main_log_no_set: "EvHcSet c \<notin> set (main_log env opts pc)"
proof (cases pc)
  case (M_Fatal site)
  then show ?thesis by (cases site) (simp_all add: log_defs)
next
  case (M_Exited site)
  then show ?thesis by (cases site) (simp_all add: log_defs)
qed (simp_all add: log_defs)

lemma zipkin_log_no_set: "EvHcSet c \<notin> set (zipkin_log env opts pc)"
  by (cases pc) (simp_all add: log_defs)

lemma primary_log_set:
  "EvHcSet c \<in> set (primary_log env opts pc) \<Longrightarrow> pc = P_Done \<and> c = StatusInternalServerError"
  by (cases pc) (simp_all add: log_defs)

lemma primary_log_error:
  "EvListenAndServeReturn (Some e) \<in> set (primary_log env opts pc) \<Longrightarrow>
   (pc = P_Fatal \<or> pc = P_Exited) \<and> http_ListenAndServe env (primary_addr opts) = Some e"
  by (cases pc) (auto simp: log_defs)

lemma nil_before_set_log:
  "happens_before (EvListenAndServeReturn None) (EvHcSet StatusInternalServerError)
     (primary_log env opts pc)"
  by (cases pc) (simp_all add: happens_before_def log_defs)

lemma Run_at_ppc: "ppc (Run_at pc env opts s) = P_Exited \<Longrightarrow> ppc s = P_Exited"
  by (cases pc) (simp_all add: Let_def split: option.splits)

lemma zipkin_at_ppc [simp]: "ppc (startZipkinHTTPAPI_at pc env p s) = ppc s"
  by (cases pc) (simp_all split: option.splits)

lemma primary_exited_code:
  "ppc (run env opts sched) = P_Exited \<Longrightarrow> exited (run env opts sched) = Some 1"
proof (induction sched rule: rev_induct)
  case Nil
  then show ?case by (simp add: run_def init_def)
next
  case (snoc t sched)
  let ?s = "run env opts sched"
  have st: "\<And>u. run env opts (sched @ [u]) = step env opts ?s u" by (simp add: run_def)
  show ?case
  proof (cases "exited ?s = None")
    case False
    with snoc show ?thesis by (simp add: st step_exited)
  next
    case True
    have "exited ?s = exit_of (mainpc ?s) (zpc ?s) (ppc ?s)"
      using inv_run [of env opts sched] by (simp add: inv_def)
    with True have np: "ppc ?s \<noteq> P_Exited"
      by (auto simp: exit_of_def split: if_splits)
    show ?thesis
    proof (cases t)
      case TMain
      with snoc.prems True np show ?thesis by (auto simp: st step_def dest: Run_at_ppc)
    next
      case TZipkin
      with snoc.prems True np show ?thesis by (simp add: st step_def)
    next
      case TPrimary
      with snoc.prems True np show ?thesis
        by (cases "ppc ?s") (simp_all add: st step_def split: option.splits)
    next
      case TSignal
      with snoc.prems True np show ?thesis
        by (simp add: st step_def signal_step_def split: if_splits)
    qed
  qed
qed

lemma primary_error_then_exits:
  assumes ev: "(PrimaryHTTP, EvListenAndServeReturn (Some e)) \<in> set (trace (run env opts sched))"
    and m: "TPrimary \<in> set ext"
  shows "exited (run env opts (sched @ ext)) \<noteq> None"
proof -
  from m obtain pre post where ext: "ext = pre @ TPrimary # post"
    by (auto dest: split_list)
  let ?s = "run env opts (sched @ pre)"
  have "EvListenAndServeReturn (Some e) \<in> set (primary_log env opts (ppc ?s))"
    using trace_mono [OF ev, of pre] by (simp add: mem_events_of primary_events_run)
  then have pc: "ppc ?s = P_Fatal \<or> ppc ?s = P_Exited"
    by (auto dest: primary_log_error)
  have "exited (step env opts ?s TPrimary) \<noteq> None"
  proof (cases "exited ?s = None")
    case False
    then show ?thesis by (simp add: step_exited)
  next
    case True
    with primary_exited_code [of env opts "sched @ pre"] pc have "ppc ?s = P_Fatal" by auto
    with True show ?thesis by (simp add: step_def)
  qed
  then have "foldl (step env opts) (step env opts ?s TPrimary) post = step env opts ?s TPrimary"
    by (rule foldl_exited)
  moreover have "run env opts (sched @ ext) = foldl (step env opts) (step env opts ?s TPrimary) post"
    by (simp add: ext run_def)
  ultimately show ?thesis using \<open>exited (step env opts ?s TPrimary) \<noteq> None\<close> by simp
qed

lemma primary_launched_health:
  assumes "inv env opts s" and "health_inv s" and "ppc s \<noteq> P_NotStarted" and "ppc s \<noteq> P_Done"
  shows "hc s = Some StatusServiceUnavailable \<or> hc s = Some StatusReady"
proof -
  from assms(1,3) have "\<not> main_rank (mainpc s) < 10" by (simp add: inv_def)
  with assms(2,4) show ?thesis
    by (auto simp: health_inv_def Let_def health_up_def split: if_splits)
qed

text \<open>
  Claim C10. In every run, a write hc.Set is performed only by the primary task, with code
  500, only when ListenAndServe has returned nil, and after that return. Once
  ListenAndServe of the primary task has returned an error, however the run goes on: no
  hc.Set is ever performed and the handle never holds 500; the task stands at logger.Fatal
  or has executed it; when it has, the process has exited with code 1 and the task's
  effects are the call, the return, the fatal entry and the exit, in this order; and as
  soon as the task runs again the process has exited.
\<close>

theorem failed_status_only_after_nil_return:
  "(\<forall>t c. (t, EvHcSet c) \<in> set (trace (run env opts sched)) \<longrightarrow>
      t = PrimaryHTTP \<and> c = StatusInternalServerError \<and>
      http_ListenAndServe env (portStr (CollectorHTTPPort opts)) = None \<and>
      (\<forall>e. (PrimaryHTTP, EvListenAndServeReturn (Some e)) \<notin> set (trace (run env opts sched))) \<and>
      (PrimaryHTTP, EvListenAndServeReturn None) \<in>
        set (takeWhile (\<lambda>x. x \<noteq> (PrimaryHTTP, EvHcSet StatusInternalServerError))
               (trace (run env opts sched)))) \<and>
   (\<forall>e. (PrimaryHTTP, EvListenAndServeReturn (Some e)) \<in> set (trace (run env opts sched)) \<longrightarrow>
      (\<forall>ext s. s = run env opts (sched @ ext) \<longrightarrow>
         (\<forall>t c. (t, EvHcSet c) \<notin> set (trace s)) \<and>
         hc s \<noteq> Some StatusInternalServerError \<and>
         (ppc s = P_Fatal \<or> ppc s = P_Exited) \<and>
         (ppc s = P_Exited \<longrightarrow>
            exited s = Some 1 \<and>
            events_of PrimaryHTTP (trace s) =
              [EvListenAndServe (portStr (CollectorHTTPPort opts))
                 (RecoveryHandler True (MuxRouter APIRoutes)),
               EvListenAndServeReturn (Some e),
               EvLogFatal ''Could not launch service'', EvExit 1]) \<and>
         (TPrimary \<in> set ext \<longrightarrow> exited s \<noteq> None)))"
proof (intro conjI allI impI)
  fix t c
  let ?s = "run env opts sched"
  assume a: "(t, EvHcSet c) \<in> set (trace ?s)"
  have t: "t = PrimaryHTTP"
  proof (cases t)
    case Main
    with a main_log_no_set [of c env opts "mainpc ?s"] show ?thesis
      by (simp add: mem_events_of main_events_run)
  next
    case ZipkinHTTP
    with a zipkin_log_no_set [of c env opts "zpc ?s"] show ?thesis
      by (simp add: mem_events_of zipkin_events_run)
  qed
  with a have l: "EvHcSet c \<in> set (primary_log env opts (ppc ?s))"
    by (simp add: mem_events_of primary_events_run)
  from primary_log_set [OF l] have pc: "ppc ?s = P_Done" and c: "c = StatusInternalServerError"
    by simp_all
  have "primary_ok env opts (ppc ?s)"
    using inv_run [of env opts sched] by (simp add: inv_def)
  with pc have nil: "http_ListenAndServe env (portStr (CollectorHTTPPort opts)) = None"
    by (simp add: primary_ok_def primary_addr_def)
  have "happens_before (PrimaryHTTP, EvListenAndServeReturn None)
      (PrimaryHTTP, EvHcSet StatusInternalServerError) (trace ?s)"
    by (rule happens_before_local) (simp add: primary_events_run nil_before_set_log)
  with a t c have hb: "(PrimaryHTTP, EvListenAndServeReturn None) \<in>
        set (takeWhile (\<lambda>x. x \<noteq> (PrimaryHTTP, EvHcSet StatusInternalServerError)) (trace ?s))"
    by (simp add: happens_before_def)
  have ne: "\<forall>e. (PrimaryHTTP, EvListenAndServeReturn (Some e)) \<notin> set (trace ?s)"
  proof (intro allI notI)
    fix e assume "(PrimaryHTTP, EvListenAndServeReturn (Some e)) \<in> set (trace ?s)"
    then have "EvListenAndServeReturn (Some e) \<in> set (primary_log env opts (ppc ?s))"
      by (simp only: mem_events_of primary_events_run)
    from primary_log_error [OF this] pc show False by simp
  qed
  show "t = PrimaryHTTP" by (rule t)
  show "c = StatusInternalServerError" by (rule c)
  show "http_ListenAndServe env (portStr (CollectorHTTPPort opts)) = None" by (rule nil)
  show "(PrimaryHTTP, EvListenAndServeReturn None) \<in>
        set (takeWhile (\<lambda>x. x \<noteq> (PrimaryHTTP, EvHcSet StatusInternalServerError)) (trace ?s))"
    by (rule hb)
  fix e show "(PrimaryHTTP, EvListenAndServeReturn (Some e)) \<notin> set (trace ?s)"
    using ne by blast
next
  fix e ext s
  assume ev: "(PrimaryHTTP, EvListenAndServeReturn (Some e)) \<in> set (trace (run env opts sched))"
    and s: "s = run env opts (sched @ ext)"
  have i: "inv env opts s" unfolding s by (rule inv_run)
  have h: "health_inv s" unfolding s by (rule health_run)
  have pl: "events_of PrimaryHTTP (trace s) = primary_log env opts (ppc s)"
    unfolding s by (rule primary_events_run)
  have "EvListenAndServeReturn (Some e) \<in> set (primary_log env opts (ppc s))"
    using trace_mono [OF ev, of ext] by (simp add: s [symmetric] mem_events_of pl)
  from primary_log_error [OF this]
  have pc: "ppc s = P_Fatal \<or> ppc s = P_Exited"
    and err: "http_ListenAndServe env (primary_addr opts) = Some e" by simp_all
  show "ppc s = P_Fatal \<or> ppc s = P_Exited" by (rule pc)
  show "hc s \<noteq> Some StatusInternalServerError"
    using primary_launched_health [OF i h] pc
    by (auto simp: StatusInternalServerError_def StatusServiceUnavailable_def StatusReady_def)
  show "TPrimary \<in> set ext \<Longrightarrow> exited s \<noteq> None"
    unfolding s by (rule primary_error_then_exits [OF ev])
  show "exited s = Some 1" if "ppc s = P_Exited"
    using that unfolding s by (rule primary_exited_code)
  show "events_of PrimaryHTTP (trace s) =
              [EvListenAndServe (portStr (CollectorHTTPPort opts))
                 (RecoveryHandler True (MuxRouter APIRoutes)),
               EvListenAndServeReturn (Some e),
               EvLogFatal ''Could not launch service'', EvExit 1]" if "ppc s = P_Exited"
    using that err by (simp add: pl log_defs)
  fix t c
  show "(t, EvHcSet c) \<notin> set (trace s)"
  proof
    assume a: "(t, EvHcSet c) \<in> set (trace s)"
    show False
    proof (cases t)
      case Main
      with a main_log_no_set [of c env opts "mainpc s"] show ?thesis
        by (simp add: mem_events_of s main_events_run)
    next
      case ZipkinHTTP
      with a zipkin_log_no_set [of c env opts "zpc s"] show ?thesis
        by (simp add: mem_events_of s zipkin_events_run)
    next
      case PrimaryHTTP
      with a have "EvHcSet c \<in> set (primary_log env opts (ppc s))"
        by (simp add: mem_events_of pl)
      from primary_log_set [OF this] pc show ?thesis by auto
    qed
  qed
qed

lemma run_primary_fails:
  "run env_ok opts_default sched_primary_fails =
     \<lparr>mainpc = M_Select, zpc = Z_Start, ppc = P_Fatal, hc = Some StatusReady,
      exited = None,
      trace = map (Pair Main) (log_ready opts_default) @
              map (Pair PrimaryHTTP) (plog_call opts_default @
                [EvListenAndServeReturn (Some ''listen tcp: address already in use'')])\<rparr>"
  by (simp add: run_def sched_primary_fails_def sched_startup_def step_def init_def
      env_ok_def emit_def hc_Ready_def log_defs)

theorem failed_status_only_after_nil_return_witness:
  "(PrimaryHTTP, EvHcSet StatusInternalServerError) \<in>
      set (trace (run env_serve_returns_nil opts_default sched_serve_ends)) \<and>
   http_ListenAndServe env_serve_returns_nil (portStr (CollectorHTTPPort opts_default)) = None \<and>
   (PrimaryHTTP, EvListenAndServeReturn (Some ''listen tcp: address already in use'')) \<in>
      set (trace (run env_ok opts_default sched_primary_fails)) \<and>
   ppc (run env_ok opts_default (sched_primary_fails @ [TPrimary])) = P_Exited \<and>
   exited (run env_ok opts_default (sched_primary_fails @ [TPrimary])) = Some 1 \<and>
   hc (run env_ok opts_default (sched_primary_fails @ [TPrimary])) \<noteq> Some StatusInternalServerError \<and>
   (\<forall>t c. (t, EvHcSet c) \<notin> set (trace (run env_ok opts_default (sched_primary_fails @ [TPrimary]))))"
proof -
  have a: "(PrimaryHTTP, EvHcSet StatusInternalServerError) \<in>
      set (trace (run env_serve_returns_nil opts_default sched_serve_ends))"
    by (simp add: run_serve_ends log_defs)
  have b: "(PrimaryHTTP, EvListenAndServeReturn (Some ''listen tcp: address already in use'')) \<in>
      set (trace (run env_ok opts_default sched_primary_fails))"
    by (simp add: run_primary_fails)
  have c: "ppc (run env_ok opts_default (sched_primary_fails @ [TPrimary])) = P_Exited"
    by (simp add: run_append run_primary_fails step_def)
  from failed_status_only_after_nil_return
    [where env = env_serve_returns_nil and opts = opts_default and sched = sched_serve_ends] a
  have 1: "http_ListenAndServe env_serve_returns_nil (portStr (CollectorHTTPPort opts_default)) = None"
    by blast
  from failed_status_only_after_nil_return
    [where env = env_ok and opts = opts_default and sched = sched_primary_fails] b c
  have 2: "exited (run env_ok opts_default (sched_primary_fails @ [TPrimary])) = Some 1 \<and>
   hc (run env_ok opts_default (sched_primary_fails @ [TPrimary])) \<noteq> Some StatusInternalServerError \<and>
   (\<forall>t c. (t, EvHcSet c) \<notin> set (trace (run env_ok opts_default (sched_primary_fails @ [TPrimary]))))"
    by blast
  from a b c 1 2 show ?thesis by blast
qed

subsection \<open>C1: the error path of the primary task\<close>

text \<open>
  Claim C1 at a concrete run: all start-up calls succeed, Ready is signalled, and
  ListenAndServe of the primary task returns an error (the port is taken). The task logs
  the fatal entry and the process exits with code 1; hc.Set(500) is not executed and the
  handle still holds the ready code. The claim wants the write of 500 before the exit.
\<close>

theorem primary_listen_error_skips_health_write:
  "(PrimaryHTTP, EvListenAndServeReturn (Some ''listen tcp: address already in use'')) \<in>
      set (trace (run env_ok opts_default (sched_primary_fails @ [TPrimary]))) \<and>
   (PrimaryHTTP, EvLogFatal ''Could not launch service'') \<in>
      set (trace (run env_ok opts_default (sched_primary_fails @ [TPrimary]))) \<and>
   exited (run env_ok opts_default (sched_primary_fails @ [TPrimary])) = Some 1 \<and>
   (PrimaryHTTP, EvHcSet StatusInternalServerError) \<notin>
      set (trace (run env_ok opts_default (sched_primary_fails @ [TPrimary]))) \<and>
   hc (run env_ok opts_default (sched_primary_fails @ [TPrimary])) = Some StatusReady \<and>
   run env_ok opts_default (sched_primary_fails @ [TPrimary, TPrimary, TMain]) =
     run env_ok opts_default (sched_primary_fails @ [TPrimary])"
  by (simp add: run_append run_primary_fails step_def log_defs)

subsection \<open>C2: an RPC port of 0\<close>

lemma portStr_0: "portStr 0 = '':0''"
  by code_simp

lemma main_log_listen:
  assumes "main_ok env opts pc" and "EvNetListen m a r \<in> set (main_log env opts pc)"
  shows "m = ''tcp'' \<and> a = portStr (CollectorPort opts) \<and>
         r = net_Listen env ''tcp'' (portStr (CollectorPort opts))"
proof (cases pc)
  case (M_Fatal site)
  with assms show ?thesis by (cases site) (auto simp: log_defs main_ok_def)
next
  case (M_Exited site)
  with assms show ?thesis by (cases site) (auto simp: log_defs main_ok_def)
qed (use assms in \<open>auto simp: log_defs main_ok_def\<close>)

lemma other_logs_no_listen:
  "EvNetListen m a r \<notin> set (zipkin_log env opts zp) \<and>
   EvNetListen m a r \<notin> set (primary_log env opts pp)"
  by (cases zp; cases pp) (simp_all add: log_defs)

lemma listen_fatal_site:
  "EvLogFatal ''Unable to start listening on channel'' \<in> set (main_log env opts pc) \<Longrightarrow>
   pc = M_Exited AtListen"
proof (cases pc)
  case (M_Fatal site)
  assume "EvLogFatal ''Unable to start listening on channel'' \<in> set (main_log env opts pc)"
  with M_Fatal show ?thesis by (cases site) (simp_all add: log_defs)
next
  case (M_Exited site)
  assume "EvLogFatal ''Unable to start listening on channel'' \<in> set (main_log env opts pc)"
  with M_Exited show ?thesis by (cases site) (simp_all add: log_defs)
qed (simp_all add: log_defs)

lemma listen_failed_log:
  assumes "main_ok env opts pc" and "pc = M_Fatal AtListen \<or> pc = M_Exited AtListen"
  shows "\<exists>e. net_Listen env ''tcp'' (portStr (CollectorPort opts)) = Some e \<and>
             EvNetListen ''tcp'' (portStr (CollectorPort opts)) (Some e) \<in> set (main_log env opts pc)"
  using assms by (auto simp: main_ok_def log_defs)

lemma run_startup_rpc_zero:
  "run env_ok opts_rpc_zero sched_startup =
     \<lparr>mainpc = M_Select, zpc = Z_Start, ppc = P_ListenAndServe, hc = Some StatusReady,
      exited = None, trace = map (Pair Main) (log_ready opts_rpc_zero)\<rparr>"
  by (rule run_startup_gen) (case_tac site, simp_all add: env_ok_def)

text \<open>
  Claim C2 fails on the code: with RPC port 0 and a net.Listen that succeeds on ":0" (as
  the operating system does, choosing a free port), the start-up goes past the bind step,
  Ready is signalled and the process stays alive.
\<close>

theorem rpc_port_zero_startup_succeeds:
  "CollectorPort opts_rpc_zero = 0 \<and>
   (Main, EvNetListen ''tcp'' '':0'' None) \<in> set (trace (run env_ok opts_rpc_zero sched_startup)) \<and>
   (Main, EvLogFatal ''Unable to start listening on channel'') \<notin>
      set (trace (run env_ok opts_rpc_zero sched_startup)) \<and>
   hc (run env_ok opts_rpc_zero sched_startup) = Some StatusReady \<and>
   exited (run env_ok opts_rpc_zero sched_startup) = None \<and>
   exited (run env_ok opts_rpc_zero (sched_startup @ [TMain, TMain])) = None"
proof -
  have p: "portStr (CollectorPort opts_rpc_zero) = '':0''"
    by (simp add: opts_rpc_zero_def portStr_0)
  have "(Main, EvNetListen ''tcp'' (portStr (CollectorPort opts_rpc_zero)) None)
      \<in> set (trace (run env_ok opts_rpc_zero sched_startup))"
    by (simp add: run_startup_rpc_zero log_defs)
  then have "(Main, EvNetListen ''tcp'' '':0'' None) \<in> set (trace (run env_ok opts_rpc_zero sched_startup))"
    by (simp only: p)
  moreover have "CollectorPort opts_rpc_zero = 0" by (simp add: opts_rpc_zero_def)
  moreover have "(Main, EvLogFatal ''Unable to start listening on channel'') \<notin>
      set (trace (run env_ok opts_rpc_zero sched_startup))"
    by (simp add: run_startup_rpc_zero log_defs)
  moreover have "exited (run env_ok opts_rpc_zero (sched_startup @ [TMain, TMain])) = None"
    by (simp add: run_append run_startup_rpc_zero step_def)
  ultimately show ?thesis by (simp add: run_startup_rpc_zero)
qed

text \<open>
  Claim C2 as amended. The start-up routine does not check the RPC port: the only
  net.Listen call of a run is the routine's, on "tcp" and ":" followed by the decimal port
  (":0" for port 0), and its result is what net.Listen answers for that address. The
  routine stands on the fatal path of the bind step exactly when that call was made and
  returned an error; the fatal entry of the bind step is logged only there, with exit code
  1, and from the fatal path the routine's next step exits with code 1.
\<close>

theorem rpc_port_passed_unchecked:
  "(\<forall>t m a r. (t, EvNetListen m a r) \<in> set (trace (run env opts sched)) \<longrightarrow>
      t = Main \<and> m = ''tcp'' \<and> a = portStr (CollectorPort opts) \<and>
      r = net_Listen env ''tcp'' (portStr (CollectorPort opts))) \<and>
   ((mainpc (run env opts sched) = M_Fatal AtListen \<or>
     mainpc (run env opts sched) = M_Exited AtListen) \<longleftrightarrow>
    (\<exists>e. net_Listen env ''tcp'' (portStr (CollectorPort opts)) = Some e \<and>
         (Main, EvNetListen ''tcp'' (portStr (CollectorPort opts)) (Some e))
           \<in> set (trace (run env opts sched)))) \<and>
   ((Main, EvLogFatal ''Unable to start listening on channel'') \<in> set (trace (run env opts sched)) \<longrightarrow>
      mainpc (run env opts sched) = M_Exited AtListen \<and> exited (run env opts sched) = Some 1) \<and>
   (mainpc (run env opts sched) = M_Fatal AtListen \<or>
    mainpc (run env opts sched) = M_Exited AtListen \<longrightarrow>
      exited (run env opts (sched @ [TMain])) = Some 1) \<and>
   (CollectorPort opts = 0 \<longrightarrow> portStr (CollectorPort opts) = '':0'')"
proof (intro conjI allI impI)
  let ?s = "run env opts sched"
  have ok: "main_ok env opts (mainpc ?s)"
    using inv_run [of env opts sched] by (simp add: inv_def)
  {
    fix t m a r
    assume a: "(t, EvNetListen m a r) \<in> set (trace ?s)"
    have t: "t = Main"
    proof (cases t)
      case ZipkinHTTP
      with a other_logs_no_listen [of m a r env opts "zpc ?s"] show ?thesis
        by (simp add: mem_events_of zipkin_events_run)
    next
      case PrimaryHTTP
      with a other_logs_no_listen [of m a r env opts _ "ppc ?s"] show ?thesis
        by (simp add: mem_events_of primary_events_run)
    qed
    with a have "EvNetListen m a r \<in> set (main_log env opts (mainpc ?s))"
      by (simp add: mem_events_of main_events_run)
    from main_log_listen [OF ok this] t
    show "t = Main" and "m = ''tcp''" and "a = portStr (CollectorPort opts)"
      and "r = net_Listen env ''tcp'' (portStr (CollectorPort opts))"
      by simp_all
  }
  show "(mainpc ?s = M_Fatal AtListen \<or> mainpc ?s = M_Exited AtListen) \<longleftrightarrow>
    (\<exists>e. net_Listen env ''tcp'' (portStr (CollectorPort opts)) = Some e \<and>
         (Main, EvNetListen ''tcp'' (portStr (CollectorPort opts)) (Some e)) \<in> set (trace ?s))"
  proof
    assume "mainpc ?s = M_Fatal AtListen \<or> mainpc ?s = M_Exited AtListen"
    from listen_failed_log [OF ok this] show "\<exists>e. net_Listen env ''tcp'' (portStr (CollectorPort opts)) = Some e \<and>
         (Main, EvNetListen ''tcp'' (portStr (CollectorPort opts)) (Some e)) \<in> set (trace ?s)"
      by (simp add: mem_events_of main_events_run)
  next
    assume "\<exists>e. net_Listen env ''tcp'' (portStr (CollectorPort opts)) = Some e \<and>
         (Main, EvNetListen ''tcp'' (portStr (CollectorPort opts)) (Some e)) \<in> set (trace ?s)"
    then obtain e where "EvNetListen ''tcp'' (portStr (CollectorPort opts)) (Some e)
        \<in> set (main_log env opts (mainpc ?s))"
      by (auto simp: mem_events_of main_events_run)
    from listen_failure_site [OF this]
    show "mainpc ?s = M_Fatal AtListen \<or> mainpc ?s = M_Exited AtListen"
      by (cases "mainpc ?s") simp_all
  qed
  {
    assume "(Main, EvLogFatal ''Unable to start listening on channel'') \<in> set (trace ?s)"
    then have pc: "mainpc ?s = M_Exited AtListen"
      by (simp add: mem_events_of main_events_run listen_fatal_site)
    then have "main_failed (mainpc ?s) = Some AtListen" by simp
    from failed_exit [OF inv_run this] pc
    show "mainpc ?s = M_Exited AtListen" and "exited ?s = Some 1" by simp_all
  }
  {
    assume "mainpc ?s = M_Fatal AtListen \<or> mainpc ?s = M_Exited AtListen"
    then have f: "main_failed (mainpc ?s) = Some AtListen" by auto
    have pc: "mainpc (run env opts (sched @ [TMain])) = M_Exited AtListen"
      by (rule failed_then_exits [OF f]) simp
    then have "main_failed (mainpc (run env opts (sched @ [TMain]))) = Some AtListen" by simp
    from failed_exit [OF inv_run this] pc
    show "exited (run env opts (sched @ [TMain])) = Some 1" by simp
  }
  show "portStr (CollectorPort opts) = '':0''" if "CollectorPort opts = 0"
    using that by (simp add: portStr_0)
qed

lemma run_bind_fails_rpc_zero:
  "run env_bind_fails opts_rpc_zero (sched_to_listen @ [TMain]) =
     \<lparr>mainpc = M_Exited AtListen, zpc = Z_NotStarted, ppc = P_NotStarted,
      hc = Some StatusServiceUnavailable, exited = Some 1,
      trace = map (Pair Main) (log_listen opts_rpc_zero
                (Some ''listen tcp: bind failed'') @
                [EvLogFatal ''Unable to start listening on channel'', EvExit 1])\<rparr>"
  by (simp add: run_def sched_to_listen_def step_def init_def env_bind_fails_def emit_def
      Fatal_def log_defs)

theorem rpc_port_passed_unchecked_witness:
  "CollectorPort opts_rpc_zero = 0 \<and>
   (Main, EvNetListen ''tcp'' '':0'' (Some ''listen tcp: bind failed''))
      \<in> set (trace (run env_bind_fails opts_rpc_zero (sched_to_listen @ [TMain]))) \<and>
   (Main, EvLogFatal ''Unable to start listening on channel'')
      \<in> set (trace (run env_bind_fails opts_rpc_zero (sched_to_listen @ [TMain]))) \<and>
   mainpc (run env_bind_fails opts_rpc_zero (sched_to_listen @ [TMain])) = M_Exited AtListen \<and>
   exited (run env_bind_fails opts_rpc_zero (sched_to_listen @ [TMain])) = Some 1 \<and>
   exited (run env_bind_fails opts_rpc_zero ((sched_to_listen @ [TMain]) @ [TMain])) = Some 1"
proof -
  have z: "CollectorPort opts_rpc_zero = 0" by (simp add: opts_rpc_zero_def)
  have f: "(Main, EvLogFatal ''Unable to start listening on channel'')
      \<in> set (trace (run env_bind_fails opts_rpc_zero (sched_to_listen @ [TMain])))"
    by (simp add: run_bind_fails_rpc_zero log_defs)
  have l: "(Main, EvNetListen ''tcp'' (portStr (CollectorPort opts_rpc_zero))
        (Some ''listen tcp: bind failed''))
      \<in> set (trace (run env_bind_fails opts_rpc_zero (sched_to_listen @ [TMain])))"
    by (simp add: run_bind_fails_rpc_zero log_defs)
  note t = rpc_port_passed_unchecked
    [where env = env_bind_fails and opts = opts_rpc_zero and sched = "sched_to_listen @ [TMain]"]
  from t z have p: "portStr (CollectorPort opts_rpc_zero) = '':0''" by blast
  from t f have e: "mainpc (run env_bind_fails opts_rpc_zero (sched_to_listen @ [TMain])) = M_Exited AtListen \<and>
      exited (run env_bind_fails opts_rpc_zero (sched_to_listen @ [TMain])) = Some 1"
    by blast
  with t have "exited (run env_bind_fails opts_rpc_zero ((sched_to_listen @ [TMain]) @ [TMain])) = Some 1"
    by blast
  moreover from l have "(Main, EvNetListen ''tcp'' '':0''
        (Some ''listen tcp: bind failed''))
      \<in> set (trace (run env_bind_fails opts_rpc_zero (sched_to_listen @ [TMain])))"
    by (simp only: p)
  ultimately show ?thesis using z f e by simp
qed

subsection \<open>C9: faults stay inside the request\<close>

lemma serve_recovered:
  "serve rt (RecoveryHandler True (MuxRouter r)) qs =
     (map (\<lambda>q. response_of (rt r q)) qs, concat (map (\<lambda>q. entries_of (rt r q)) qs), True)"
  by (induction qs) (simp_all add: response_of_def entries_of_def split: outcome.splits)

lemma zipkin_log_wrapped:
  "EvListenAndServe a h \<in> set (zipkin_log env opts pc) \<Longrightarrow>
   h = RecoveryHandler True (MuxRouter ZipkinRoutes)"
  by (rule zipkin_log_serving [THEN conjunct2])

text \<open>
  Claim C9. In every run, each handler handed to ListenAndServe, by either HTTP task, is a
  mux router wrapped in the recovery handler built with printStack = true. Serving any
  sequence of requests through such a handler, whatever the route handlers do: every
  request gets exactly one response, which is 500 when its handler raised a fault and the
  handler's own response otherwise; each fault is logged once with its stack trace; and
  the listener still accepts requests afterwards.
\<close>

theorem recovery_middleware_contains_faults:
  "(\<forall>t a h. (t, EvListenAndServe a h) \<in> set (trace (run env opts sched)) \<longrightarrow>
      (\<exists>r. h = RecoveryHandler True (MuxRouter r))) \<and>
   serve rt (RecoveryHandler True (MuxRouter r)) qs =
     (map (\<lambda>q. response_of (rt r q)) qs, concat (map (\<lambda>q. entries_of (rt r q)) qs), True) \<and>
   (\<forall>q v. rt r q = Panicked v \<longrightarrow>
      ServeHTTP rt (RecoveryHandler True (MuxRouter r)) q =
        (Responded StatusInternalServerError, [LogPanic v True]))"
proof (intro conjI allI impI)
  fix t a h
  let ?s = "run env opts sched"
  assume a: "(t, EvListenAndServe a h) \<in> set (trace ?s)"
  show "\<exists>r. h = RecoveryHandler True (MuxRouter r)"
  proof (cases t)
    case Main
    with a main_log_serving [of a h env opts "mainpc ?s"] show ?thesis
      by (simp add: mem_events_of main_events_run)
  next
    case ZipkinHTTP
    with a have "EvListenAndServe a h \<in> set (zipkin_log env opts (zpc ?s))"
      by (simp add: mem_events_of zipkin_events_run)
    from zipkin_log_wrapped [OF this] show ?thesis by blast
  next
    case PrimaryHTTP
    with a primary_log_serving [of a h env opts "ppc ?s"] show ?thesis
      by (simp add: mem_events_of primary_events_run)
  qed
next
  show "serve rt (RecoveryHandler True (MuxRouter r)) qs =
     (map (\<lambda>q. response_of (rt r q)) qs, concat (map (\<lambda>q. entries_of (rt r q)) qs), True)"
    by (rule serve_recovered)
next
  fix q v assume "rt r q = Panicked v"
  then show "ServeHTTP rt (RecoveryHandler True (MuxRouter r)) q =
        (Responded StatusInternalServerError, [LogPanic v True])"
    by simp
qed

theorem recovery_middleware_contains_faults_witness:
  "(PrimaryHTTP, EvListenAndServe (portStr (CollectorHTTPPort opts_default))
      (RecoveryHandler True (MuxRouter APIRoutes)))
     \<in> set (trace (run env_ok opts_default sched_primary_fails)) \<and>
   routes_sample APIRoutes ''/boom'' = Panicked ''nil pointer dereference'' \<and>
   ServeHTTP routes_sample (RecoveryHandler True (MuxRouter APIRoutes)) ''/boom'' =
     (Responded StatusInternalServerError, [LogPanic ''nil pointer dereference'' True]) \<and>
   serve routes_sample (RecoveryHandler True (MuxRouter APIRoutes))
       [''/api/traces'', ''/boom'', ''/api/traces''] =
     ([202, StatusInternalServerError, 202], [LogPanic ''nil pointer dereference'' True], True)"
proof -
  have a: "(PrimaryHTTP, EvListenAndServe (portStr (CollectorHTTPPort opts_default))
      (RecoveryHandler True (MuxRouter APIRoutes)))
     \<in> set (trace (run env_ok opts_default sched_primary_fails))"
    by (simp add: run_primary_fails log_defs)
  have b: "routes_sample APIRoutes ''/boom'' = Panicked ''nil pointer dereference''"
    by (simp add: routes_sample_def)
  note t = recovery_middleware_contains_faults
    [where env = env_ok and opts = opts_default and sched = sched_primary_fails
       and rt = routes_sample and r = APIRoutes
       and qs = "[''/api/traces'', ''/boom'', ''/api/traces'']"]
  from t b have c: "ServeHTTP routes_sample (RecoveryHandler True (MuxRouter APIRoutes)) ''/boom'' =
     (Responded StatusInternalServerError, [LogPanic ''nil pointer dereference'' True])"
    by blast
  from t have "serve routes_sample (RecoveryHandler True (MuxRouter APIRoutes))
       [''/api/traces'', ''/boom'', ''/api/traces''] =
     (map (\<lambda>q. response_of (routes_sample APIRoutes q)) [''/api/traces'', ''/boom'', ''/api/traces''],
      concat (map (\<lambda>q. entries_of (routes_sample APIRoutes q))
        [''/api/traces'', ''/boom'', ''/api/traces'']), True)"
    by blast
  then have "serve routes_sample (RecoveryHandler True (MuxRouter APIRoutes))
       [''/api/traces'', ''/boom'', ''/api/traces''] =
     ([202, StatusInternalServerError, 202], [LogPanic ''nil pointer dereference'' True], True)"
    by (simp add: routes_sample_def response_of_def entries_of_def)
  with a b c show ?thesis by blast
qed

text \<open>Without the wrapper the same fault reaches the loop, which the model takes to end.\<close>

lemma serve_unwrapped_fault:
  "serve routes_sample (MuxRouter APIRoutes) [''/api/traces'', ''/boom'', ''/api/traces''] =
     ([202], [], False)"
  by (simp add: routes_sample_def)

end
